theory Spec2Isabelle
  imports Main "HOL-Library.Sublist" "HOL-Library.Word"
begin

unbundle bit_operations_syntax

section \<open>The HDFS client of \<^verbatim>\<open>src/hdfs/hdfs.cpp\<close>\<close>

text \<open>
  The client shells out to the \<^verbatim>\<open>hadoop\<close> command-line program. The model keeps the
  structure of the C++ file: \<^verbatim>\<open>Try<T>\<close> is a sum whose left injection carries the error
  message, \<^verbatim>\<open>Option<T>\<close> is \<open>option\<close>, a \<^verbatim>\<open>Future<T>\<close> is a datatype of its
  terminal states, and every call that leaves the process (a shell command, a
  subprocess) is recorded in a trace returned next to the result.
\<close>

subsection \<open>Values of stout and libprocess\<close>

type_synonym 'a Try = "string + 'a"

datatype 'a Result = ResultError string | ResultNone | ResultSome 'a

text \<open>The implicit conversion from \<^verbatim>\<open>Try<T>\<close> to \<^verbatim>\<open>Result<T>\<close>.\<close>

fun Result_of_Try :: "'a Try \<Rightarrow> 'a Result" where
  "Result_of_Try (Inl e) = ResultError e"
| "Result_of_Try (Inr v) = ResultSome v"

subsection \<open>String helpers of stout\<close>

text \<open>\<^verbatim>\<open>strings::startsWith\<close> and \<^verbatim>\<open>strings::endsWith\<close>.\<close>

definition startsWith :: "string \<Rightarrow> string \<Rightarrow> bool" where
  "startsWith s pre = (take (length pre) s = pre)"

definition endsWith :: "string \<Rightarrow> string \<Rightarrow> bool" where
  "endsWith s suf = (length suf \<le> length s \<and> drop (length s - length suf) s = suf)"

text \<open>
  Modelled from the spec: \<^verbatim>\<open>strings::remove\<close> and \<^verbatim>\<open>path::join\<close> of stout are not under
  \<^verbatim>\<open>src/\<close>. The spec describes the join with an empty base as one that "preserves a
  leading slash or adds one": the first path loses one trailing separator, the second
  one leading separator, and a single separator is put between them. Joining three
  components joins the first with the join of the other two.
\<close>

datatype Mode = PREFIX | SUFFIX

fun remove :: "string \<Rightarrow> string \<Rightarrow> Mode \<Rightarrow> string" where
  "remove from substring PREFIX =
     (if startsWith from substring then drop (length substring) from else from)"
| "remove from substring SUFFIX =
     (if endsWith from substring then take (length from - length substring) from else from)"

definition path_join :: "string \<Rightarrow> string \<Rightarrow> string" where
  "path_join path1 path2 = remove path1 ''/'' SUFFIX @ ''/'' @ remove path2 ''/'' PREFIX"

definition path_join3 :: "string \<Rightarrow> string \<Rightarrow> string \<Rightarrow> string" where
  "path_join3 path1 path2 path3 = path_join path1 (path_join path2 path3)"

text \<open>
  Modelled from the spec: \<^verbatim>\<open>strings::tokenize\<close> of stout is not under \<^verbatim>\<open>src/\<close>. The spec
  (and the comment in \<^verbatim>\<open>HDFS::du\<close>) says that consecutive separators collapse: the
  string is split on runs of characters of \<open>delims\<close>, and no token is empty. The loop
  skips the separators in front, cuts the token at the next separator and goes on from
  there.
\<close>

function tokenize :: "string \<Rightarrow> string \<Rightarrow> string list" where
  "tokenize s delims =
     (case dropWhile (\<lambda>c. c \<in> set delims) s of
        [] \<Rightarrow> []
      | c # cs \<Rightarrow>
          takeWhile (\<lambda>c. c \<notin> set delims) (c # cs) #
          tokenize (dropWhile (\<lambda>c. c \<notin> set delims) (c # cs)) delims)"
  by pat_completeness auto
termination
proof (relation "measure (\<lambda>(s, delims). length s)")
  show "wf (measure (\<lambda>(s, delims). length s))" by simp
next
  fix s delims :: string and c cs
  assume eq: "dropWhile (\<lambda>c. c \<in> set delims) s = c # cs"
  have "length (c # cs) \<le> length s"
    using length_dropWhile_le [of "\<lambda>c. c \<in> set delims" s] eq by simp
  moreover have "length (dropWhile (\<lambda>c. c \<notin> set delims) cs) \<le> length cs"
    by (rule length_dropWhile_le)
  moreover have "c \<notin> set delims"
    using hd_dropWhile [of "\<lambda>c. c \<in> set delims" s] eq by simp
  ultimately show "((dropWhile (\<lambda>c. c \<notin> set delims) (c # cs), delims), (s, delims))
      \<in> measure (\<lambda>(s, delims). length s)"
    by simp
qed

text \<open>
  Modelled from the spec: \<^verbatim>\<open>numify\<close> of stout is not under \<^verbatim>\<open>src/\<close>. The spec asks for
  the field to be "parsed as a non-negative integer": a non-empty string of decimal
  digits is its value, anything else is an error. \<^verbatim>\<open>HDFS::du\<close> instantiates it as
  \<^verbatim>\<open>numify<size_t>\<close>, so the result is a 64-bit unsigned word: a number of digits whose
  value does not fit (2^64 or more) is an error too, nothing wraps around. The text of
  the error message is not fixed by the spec.
\<close>

definition isdigit :: "char \<Rightarrow> bool" where
  "isdigit c = (48 \<le> (of_char c :: nat) \<and> (of_char c :: nat) \<le> 57)"

definition digit_value :: "char \<Rightarrow> nat" where
  "digit_value c = of_char c - 48"

definition digits_value :: "string \<Rightarrow> nat" where
  "digits_value s = foldl (\<lambda>acc c. 10 * acc + digit_value c) 0 s"

definition numify :: "string \<Rightarrow> 64 word Try" where
  "numify s =
     (if s \<noteq> [] \<and> list_all isdigit s \<and> digits_value s < 2 ^ 64
      then Inr (word_of_nat (digits_value s))
      else Inl (''Failed to convert '' @ [CHR 0x27] @ s @ [CHR 0x27] @ '' to number''))"

text \<open>
  Modelled from the spec: \<^verbatim>\<open>stringify\<close> of stout is not under \<^verbatim>\<open>src/\<close>; the spec calls
  its result "the literal status". An \<^verbatim>\<open>int\<close> is printed in decimal, with a minus sign
  when negative.
\<close>

definition digit_char :: "nat \<Rightarrow> char" where
  "digit_char d = char_of (48 + d)"

fun decimal :: "nat \<Rightarrow> string" where
  "decimal n = (if n div 10 = 0 then [] else decimal (n div 10)) @ [digit_char (n mod 10)]"

definition stringify :: "int \<Rightarrow> string" where
  "stringify i = (if i < 0 then CHR ''-'' # decimal (nat (- i)) else decimal (nat i))"

text \<open>
  Modelled from the spec: the macros \<^verbatim>\<open>WIFEXITED\<close> and \<^verbatim>\<open>WEXITSTATUS\<close> of
  \<^verbatim>\<open><sys/wait.h>\<close> are not under \<^verbatim>\<open>src/\<close>. "Exited normally with code c" is read off
  the wait status as Linux encodes it: the low seven bits are zero for a normal exit,
  and the exit code is the second byte. Only the low sixteen bits of the \<^verbatim>\<open>int\<close> are
  read, so nothing can overflow.
\<close>

definition WIFEXITED :: "int \<Rightarrow> bool" where
  "WIFEXITED st = (st AND 0x7f = 0)"

definition WEXITSTATUS :: "int \<Rightarrow> int" where
  "WEXITSTATUS st = drop_bit 8 (st AND 0xff00)"

text \<open>
  The continuation handed to \<^verbatim>\<open>then\<close> runs after \<^verbatim>\<open>await\<close> has completed, that is once
  each awaited future has left the pending state. A future is therefore one of: ready
  with a value, failed with a message, discarded.
\<close>

datatype 'a Future = Ready 'a | Failed string | Discarded

fun isReady :: "'a Future \<Rightarrow> bool" where
  "isReady (Ready v) = True"
| "isReady (Failed m) = False"
| "isReady Discarded = False"

text \<open>
  \<^verbatim>\<open>f.then(g)\<close>: \<open>g\<close> is applied to the value of a ready future; a failure or a discard
  of \<open>f\<close> is passed on unchanged.
\<close>

fun then_future :: "'a Future \<Rightarrow> ('a \<Rightarrow> 'b Future) \<Rightarrow> 'b Future" where
  "then_future (Ready v) g = g v"
| "then_future (Failed m) g = Failed m"
| "then_future Discarded g = Discarded"

text \<open>
  \<^verbatim>\<open>await(f1, f2, f3)\<close>: ready with the tuple of the three futures once none of them is
  pending, whatever their outcome.
\<close>

definition await :: "'a Future \<Rightarrow> 'b Future \<Rightarrow> 'c Future \<Rightarrow> ('a Future \<times> 'b Future \<times> 'c Future) Future" where
  "await f1 f2 f3 = Ready (f1, f2, f3)"

subsection \<open>The subprocess and its surroundings\<close>

text \<open>
  A \<^verbatim>\<open>Subprocess\<close> exposes the future of its wait status and, for each output stream
  that was set up as a pipe, the file descriptor to read it from.
\<close>

record Subprocess =
  s_status :: "int option Future"
  s_out :: "int option"
  s_err :: "int option"

datatype IO = PATH string | PIPE

datatype invocation =
    Shell string
  | Exec string "string list" IO IO IO

text \<open>
  Everything outside the process that the client consults: the environment, the local
  file system, \<^verbatim>\<open>os::shell\<close> (an error, or the captured standard output of a command
  that exited with status 0), the \<^verbatim>\<open>subprocess\<close> launcher and \<^verbatim>\<open>io::read\<close> on a
  descriptor.
\<close>

record world =
  getenv :: "string \<Rightarrow> string option"
  os_exists :: "string \<Rightarrow> bool"
  shell :: "string \<Rightarrow> string Try"
  subprocess :: "string \<Rightarrow> string list \<Rightarrow> IO \<Rightarrow> IO \<Rightarrow> IO \<Rightarrow> Subprocess Try"
  io_read :: "int \<Rightarrow> string Future"

subsection \<open>The aggregator \<^verbatim>\<open>result\<close>\<close>

record CommandResult =
  status :: "int option"
  out :: string
  err :: string

text \<open>The lambda of \<^verbatim>\<open>result\<close>, applied to the tuple that \<^verbatim>\<open>await\<close> delivers.\<close>

fun result_continuation ::
  "int option Future \<times> string Future \<times> string Future \<Rightarrow> CommandResult Future" where
  "result_continuation (status_f, output_f, error_f) =
     (case status_f of
        Failed m \<Rightarrow> Failed (''Failed to get the exit status of the subprocess: '' @ m)
      | Discarded \<Rightarrow> Failed (''Failed to get the exit status of the subprocess: '' @ ''discarded'')
      | Ready st \<Rightarrow>
          (case output_f of
             Failed m \<Rightarrow> Failed (''Failed to read stdout from the subprocess: '' @ m)
           | Discarded \<Rightarrow> Failed (''Failed to read stdout from the subprocess: '' @ ''discarded'')
           | Ready ou \<Rightarrow>
               (case error_f of
                  Failed m \<Rightarrow> Failed (''Failed to read stderr from the subprocess: '' @ m)
                | Discarded \<Rightarrow> Failed (''Failed to read stderr from the subprocess: '' @ ''discarded'')
                | Ready er \<Rightarrow> Ready \<lparr>status = st, out = ou, err = er\<rparr>)))"

text \<open>
  \<^verbatim>\<open>result(s)\<close>. The two \<^verbatim>\<open>CHECK_SOME\<close> abort the program when a stream was not set
  up for capture: the model returns \<open>None\<close> there.
\<close>

definition result :: "world \<Rightarrow> Subprocess \<Rightarrow> CommandResult Future option" where
  "result w s =
     (case s_out s of
        None \<Rightarrow> None
      | Some out_fd \<Rightarrow>
          (case s_err s of
             None \<Rightarrow> None
           | Some err_fd \<Rightarrow>
               Some (then_future
                 (await (s_status s) (io_read w out_fd) (io_read w err_fd))
                 result_continuation)))"

subsection \<open>The client\<close>

record HDFS =
  hadoop :: string

type_synonym 'a traced = "invocation list \<times> 'a"

text \<open>\<^verbatim>\<open>HDFS::absolutePath\<close>.\<close>

definition absolutePath :: "string \<Rightarrow> string" where
  "absolutePath hdfsPath =
     (if startsWith hdfsPath ''hdfs://'' \<or> startsWith hdfsPath ''/'' then hdfsPath
      else path_join [] hdfsPath)"

text \<open>
  \<^verbatim>\<open>HDFS::create\<close>. The trace holds the one shell command of the availability check.
\<close>

definition create :: "world \<Rightarrow> string option \<Rightarrow> (HDFS Try) traced" where
  "create w hadoop_opt =
     (let client =
        (case hadoop_opt of
           Some h \<Rightarrow> h
         | None \<Rightarrow>
             (case getenv w ''HADOOP_HOME'' of
                Some hadoopHome \<Rightarrow> path_join3 hadoopHome ''bin'' ''hadoop''
              | None \<Rightarrow> ''hadoop''))
      in ([Shell (client @ '' version 2>&1'')],
          case shell w (client @ '' version 2>&1'') of
            Inl e \<Rightarrow> Inl e
          | Inr output \<Rightarrow> Inr \<lparr>hadoop = client\<rparr>))"

text \<open>The lambda of \<^verbatim>\<open>HDFS::exists\<close>, applied to the aggregated result.\<close>

definition exists_continuation :: "CommandResult \<Rightarrow> bool Future" where
  "exists_continuation r =
     (case status r of
        None \<Rightarrow> Failed ''Failed to reap the subprocess''
      | Some st \<Rightarrow>
          if WIFEXITED st \<and> WEXITSTATUS st = 0 then Ready True
          else if WIFEXITED st \<and> WEXITSTATUS st = 1 then Ready False
          else Failed (''Unexpected result from the subprocess: '' @
                 ''status='' @ [CHR 0x27] @ stringify st @ [CHR 0x27] @ '', '' @
                 ''stdout='' @ [CHR 0x27] @ out r @ [CHR 0x27] @ '', '' @
                 ''stderr='' @ [CHR 0x27] @ err r @ [CHR 0x27]))"

text \<open>
  \<^verbatim>\<open>HDFS::exists\<close>. \<open>None\<close> stands for the abort of a \<^verbatim>\<open>CHECK_SOME\<close> in \<^verbatim>\<open>result\<close>.
\<close>

definition exists_argv :: "string \<Rightarrow> string list" where
  "exists_argv path = [''hadoop'', ''fs'', ''-test'', ''-e'', absolutePath path]"

definition exists :: "HDFS \<Rightarrow> world \<Rightarrow> string \<Rightarrow> (bool Future option) traced" where
  "exists hdfs w path =
     ([Exec (hadoop hdfs) (exists_argv path) (PATH ''/dev/null'') PIPE PIPE],
      case subprocess w (hadoop hdfs) (exists_argv path) (PATH ''/dev/null'') PIPE PIPE of
        Inl e \<Rightarrow> Some (Failed (''Failed to execute the subprocess: '' @ e))
      | Inr s \<Rightarrow> map_option (\<lambda>f. then_future f exists_continuation) (result w s))"

text \<open>
  \<^verbatim>\<open>HDFS::du\<close>. \<^verbatim>\<open>Bytes\<close> wraps the \<^verbatim>\<open>size_t\<close> parsed, a 64-bit unsigned word. The
  \<^verbatim>\<open>foreach\<close> over the lines of the output is \<open>du_foreach\<close>; it keeps the whole output for the final error message.
  \<^verbatim>\<open>strings::format\<close> with \<^verbatim>\<open>%s\<close> directives only puts the strings into the pattern
  and cannot fail, so the \<^verbatim>\<open>CHECK_SOME\<close> on the command never aborts.
\<close>

datatype Bytes = Bytes "64 word"

fun du_foreach :: "string \<Rightarrow> string \<Rightarrow> string list \<Rightarrow> Bytes Try" where
  "du_foreach path output [] =
     Inl (''HDFS du returned an unexpected format: '' @ [CHR 0x27] @ output @ [CHR 0x27])"
| "du_foreach path output (line # lines) =
     (let fields = tokenize line '' '' in
      if length fields = 2 \<and> fields ! 1 = path then
        (case Result_of_Try (numify (fields ! 0)) of
           ResultError e \<Rightarrow> Inl (''HDFS du returned unexpected format: '' @ e)
         | ResultNone \<Rightarrow> Inl ''HDFS du returned unexpected format''
         | ResultSome sz \<Rightarrow> Inr (Bytes sz))
      else du_foreach path output lines)"

definition du_command :: "HDFS \<Rightarrow> string \<Rightarrow> string" where
  "du_command hdfs path = hadoop hdfs @ '' fs -du '' @ [CHR 0x27] @ path @ [CHR 0x27]"

definition du :: "HDFS \<Rightarrow> world \<Rightarrow> string \<Rightarrow> (Bytes Try) traced" where
  "du hdfs w path_arg =
     (let path = absolutePath path_arg;
          command = du_command hdfs path
      in ([Shell (command @ '' 2>&1'')],
          case shell w (command @ '' 2>&1'') of
            Inl e \<Rightarrow> Inl (''HDFS du failed: '' @ e)
          | Inr output \<Rightarrow> du_foreach path output (tokenize output ''\<newline>'')))"

text \<open>\<^verbatim>\<open>HDFS::rm\<close>. \<^verbatim>\<open>Nothing\<close> is the unit value.\<close>

definition rm_command :: "HDFS \<Rightarrow> string \<Rightarrow> string" where
  "rm_command hdfs path = hadoop hdfs @ '' fs -rm '' @ [CHR 0x27] @ path @ [CHR 0x27]"

definition rm :: "HDFS \<Rightarrow> world \<Rightarrow> string \<Rightarrow> (unit Try) traced" where
  "rm hdfs w path =
     (let command = rm_command hdfs (absolutePath path)
      in ([Shell command],
          case shell w command of
            Inl e \<Rightarrow> Inl e
          | Inr output \<Rightarrow> Inr ()))"

text \<open>
  \<^verbatim>\<open>HDFS::copyFromLocal\<close> and \<^verbatim>\<open>HDFS::copyToLocal\<close>. Both format their command from
  the client, the source and the destination, each path between single quotes.
\<close>

definition copy_command :: "HDFS \<Rightarrow> string \<Rightarrow> string \<Rightarrow> string \<Rightarrow> string" where
  "copy_command hdfs verb from to =
     hadoop hdfs @ '' fs -'' @ verb @ '' '' @ [CHR 0x27] @ from @ [CHR 0x27] @
       '' '' @ [CHR 0x27] @ to @ [CHR 0x27]"

definition copyFromLocal :: "HDFS \<Rightarrow> world \<Rightarrow> string \<Rightarrow> string \<Rightarrow> (unit Try) traced" where
  "copyFromLocal hdfs w from to_arg =
     (if \<not> os_exists w from then ([], Inl (''Failed to find '' @ from))
      else
        (let to = absolutePath to_arg;
             command = copy_command hdfs ''copyFromLocal'' from to
         in ([Shell command],
             case shell w command of
               Inl e \<Rightarrow> Inl e
             | Inr output \<Rightarrow> Inr ())))"

definition copyToLocal :: "HDFS \<Rightarrow> world \<Rightarrow> string \<Rightarrow> string \<Rightarrow> (unit Try) traced" where
  "copyToLocal hdfs w from_arg to =
     (let from = absolutePath from_arg;
          command = copy_command hdfs ''copyToLocal'' from to
      in ([Shell command],
          case shell w command of
            Inl e \<Rightarrow> Inl e
          | Inr output \<Rightarrow> Inr ()))"

subsection \<open>Notions used to state the properties\<close>

text \<open>
  A qualifying line, in the words of the spec: split into fields, the line has exactly
  two, and the second is the path. The separators are a parameter: \<^verbatim>\<open>HDFS::du\<close> passes
  the single space, the spec speaks of whitespace.
\<close>

definition qualifying :: "string \<Rightarrow> string \<Rightarrow> string \<Rightarrow> bool" where
  "qualifying delims path line =
     (let fields = tokenize line delims in length fields = 2 \<and> fields ! 1 = path)"

text \<open>
  A valid non-negative integer for a \<^verbatim>\<open>size_t\<close>: decimal digits, at least one, whose value
  is below 2^64.
\<close>

definition valid_number :: "string \<Rightarrow> bool" where
  "valid_number f = (f \<noteq> [] \<and> list_all isdigit f \<and> digits_value f < 2 ^ 64)"

text \<open>The whitespace characters of C: space, tab, line feed, vertical tab, form feed, return.\<close>

definition whitespace :: string where
  "whitespace = [CHR 0x20, CHR 0x09, CHR 0x0A, CHR 0x0B, CHR 0x0C, CHR 0x0D]"

text \<open>
  \<^verbatim>\<open>HDFS::create\<close> settles on \<open>client\<close>: the availability check is the one command
  \<open>client version 2>&1\<close>, \<^verbatim>\<open>create\<close> fails exactly when that command fails (with the
  command's error), and otherwise returns an object holding \<open>client\<close>.
\<close>

definition checks_client :: "world \<Rightarrow> string option \<Rightarrow> string \<Rightarrow> bool" where
  "checks_client w hadoop_opt client =
     (fst (create w hadoop_opt) = [Shell (client @ '' version 2>&1'')]
      \<and> ((\<exists>e. snd (create w hadoop_opt) = Inl e) = (\<exists>e. shell w (client @ '' version 2>&1'') = Inl e))
      \<and> (case shell w (client @ '' version 2>&1'') of
            Inl e \<Rightarrow> snd (create w hadoop_opt) = Inl e
          | Inr output \<Rightarrow> snd (create w hadoop_opt) = Inr \<lparr>hadoop = client\<rparr>))"

subsection \<open>Concrete surroundings for the examples\<close>

text \<open>
  A subprocess whose two streams are pipes (descriptors 5 and 6), and a world in which
  launching yields that subprocess and reading the pipes yields the given futures.
\<close>

definition piped_subprocess :: "int option Future \<Rightarrow> Subprocess" where
  "piped_subprocess st = \<lparr>s_status = st, s_out = Some 5, s_err = Some 6\<rparr>"

definition piped_world :: "int option Future \<Rightarrow> string Future \<Rightarrow> string Future \<Rightarrow> world" where
  "piped_world st ou er =
     \<lparr>getenv = (\<lambda>name. None), os_exists = (\<lambda>p. False),
      shell = (\<lambda>command. Inl ''no shell''),
      subprocess = (\<lambda>path argv i o1 o2. Inr (piped_subprocess st)),
      io_read = (\<lambda>fd. if fd = 5 then ou else if fd = 6 then er else Discarded)\<rparr>"

text \<open>
  A world with an environment, a set of local files and a shell; no subprocess can be
  launched in it.
\<close>

definition shell_world ::
  "(string \<Rightarrow> string option) \<Rightarrow> (string \<Rightarrow> bool) \<Rightarrow> (string \<Rightarrow> string Try) \<Rightarrow> world" where
  "shell_world env files sh =
     \<lparr>getenv = env, os_exists = files, shell = sh,
      subprocess = (\<lambda>path argv i o1 o2. Inl ''no subprocess''),
      io_read = (\<lambda>fd. Discarded)\<rparr>"

text \<open>A shell that answers one command with the given output and fails on every other.\<close>

definition answers :: "string \<Rightarrow> string \<Rightarrow> string \<Rightarrow> string Try" where
  "answers expected output command =
     (if command = expected then Inr output else Inl ''command failed'')"

text \<open>Environments and local file systems for \<open>shell_world\<close>.\<close>

definition no_env :: "string \<Rightarrow> string option" where
  "no_env name = None"

definition home_env :: "string \<Rightarrow> string \<Rightarrow> string option" where
  "home_env home name = (if name = ''HADOOP_HOME'' then Some home else None)"

definition no_files :: "string \<Rightarrow> bool" where
  "no_files p = False"

definition only_file :: "string \<Rightarrow> string \<Rightarrow> bool" where
  "only_file f p = (p = f)"

section \<open>Properties\<close>

subsection \<open>Tokenizing\<close>

declare tokenize.simps [simp del]

lemma tokenize_Nil: "tokenize [] delims = []"
  by (simp add: tokenize.simps)

lemma tokenize_skip: "c \<in> set delims \<Longrightarrow> tokenize (c # s) delims = tokenize s delims"
  by (subst tokenize.simps, subst (2) tokenize.simps) simp

lemma tokenize_skip_run:
  "c \<in> set delims \<Longrightarrow> tokenize (replicate n c @ s) delims = tokenize s delims"
  by (induction n) (simp_all add: tokenize_skip)

lemma tokenize_only_delims: "set s \<subseteq> set delims \<Longrightarrow> tokenize s delims = []"
  by (induction s) (simp_all add: tokenize_Nil tokenize_skip)

lemma tokenize_cut:
  assumes "a \<noteq> []" and "set a \<inter> set delims = {}" and "c \<in> set delims"
  shows "tokenize (a @ c # s) delims = a # tokenize s delims"
proof -
  obtain x xs where a: "a = x # xs" using assms(1) by (cases a) auto
  have x: "x \<notin> set delims" using assms(2) a by auto
  have all: "\<forall>y\<in>set a. y \<notin> set delims" using assms(2) by auto
  have tw: "takeWhile (\<lambda>c. c \<notin> set delims) (a @ c # s) = a"
    using all assms(3) by (simp add: takeWhile_append2 takeWhile_tail)
  have dw: "dropWhile (\<lambda>c. c \<notin> set delims) (a @ c # s) = c # s"
    using all assms(3) by (simp add: dropWhile_append2 dropWhile_append3)
  have "tokenize (a @ c # s) delims =
      takeWhile (\<lambda>c. c \<notin> set delims) (a @ c # s) #
      tokenize (dropWhile (\<lambda>c. c \<notin> set delims) (a @ c # s)) delims"
    using x a by (subst tokenize.simps) simp
  then show ?thesis
    using tw dw assms(3) by (simp add: tokenize_skip)
qed

lemma tokenize_single:
  assumes "a \<noteq> []" and "set a \<inter> set delims = {}"
  shows "tokenize a delims = [a]"
proof -
  obtain x xs where a: "a = x # xs" using assms(1) by (cases a) auto
  have x: "x \<notin> set delims" using assms(2) a by auto
  have all: "\<forall>y\<in>set a. y \<notin> set delims" using assms(2) by auto
  have tw: "takeWhile (\<lambda>c. c \<notin> set delims) a = a"
    using all by (simp add: takeWhile_eq_all_conv)
  have dw: "dropWhile (\<lambda>c. c \<notin> set delims) a = []"
    using all by simp
  have "tokenize a delims =
      takeWhile (\<lambda>c. c \<notin> set delims) a # tokenize (dropWhile (\<lambda>c. c \<notin> set delims) a) delims"
    using x a by (subst tokenize.simps) simp
  then show ?thesis
    using tw dw by (simp add: tokenize_Nil)
qed

lemma tokenize_two_fields:
  assumes "f1 \<noteq> []" "f2 \<noteq> []" "c \<in> set delims"
    and "set f1 \<inter> set delims = {}" "set f2 \<inter> set delims = {}"
  shows "tokenize (replicate i c @ f1 @ replicate (Suc j) c @ f2 @ replicate k c) delims = [f1, f2]"
proof -
  have last: "tokenize (f2 @ replicate k c) delims = [f2]"
  proof (cases k)
    case 0
    then show ?thesis using assms by (simp add: tokenize_single)
  next
    case (Suc k')
    have "tokenize (f2 @ c # replicate k' c) delims = f2 # tokenize (replicate k' c) delims"
      using assms by (intro tokenize_cut) auto
    moreover have "tokenize (replicate k' c) delims = []"
      using assms(3) by (intro tokenize_only_delims) auto
    ultimately show ?thesis using Suc by simp
  qed
  have "tokenize (replicate i c @ f1 @ replicate (Suc j) c @ f2 @ replicate k c) delims =
        tokenize (f1 @ c # (replicate j c @ f2 @ replicate k c)) delims"
    using assms(3) by (simp add: tokenize_skip_run)
  also have "\<dots> = f1 # tokenize (replicate j c @ f2 @ replicate k c) delims"
    using assms by (intro tokenize_cut) auto
  also have "\<dots> = [f1, f2]"
    using assms(3) last by (simp add: tokenize_skip_run)
  finally show ?thesis .
qed

subsection \<open>Parsing numbers\<close>

lemma digit_char_value:
  assumes "d < 10"
  shows "isdigit (digit_char d) \<and> digit_value (digit_char d) = d"
proof -
  have "of_char (char_of (48 + d) :: char) = (48 + d) mod 256"
    by (simp add: of_char_of)
  moreover have "(48 + d) mod 256 = 48 + d" using assms by simp
  ultimately have v: "(of_char (char_of (48 + d) :: char) :: nat) = 48 + d" by simp
  show ?thesis
    using v assms by (simp add: isdigit_def digit_value_def digit_char_def)
qed

declare decimal.simps [simp del]

lemma decimal_digits:
  "decimal n \<noteq> [] \<and> list_all isdigit (decimal n) \<and> digits_value (decimal n) = n"
  unfolding digits_value_def
proof (induction n rule: decimal.induct)
  case (1 n)
  have md: "n mod 10 < 10" by simp
  show ?case
  proof (cases "n div 10 = 0")
    case True
    then have "decimal n = [digit_char (n mod 10)]"
      by (subst decimal.simps) simp
    moreover from True have "n mod 10 = n" by simp
    ultimately show ?thesis
      using digit_char_value [OF md] by simp
  next
    case False
    have "decimal n = decimal (n div 10) @ [digit_char (n mod 10)]"
      using False by (subst decimal.simps) simp
    then show ?thesis
      using 1 [OF False] digit_char_value [OF md] by simp
  qed
qed

lemma valid_number_decimal: "valid_number (decimal n) \<longleftrightarrow> n < 2 ^ 64"
  using decimal_digits [of n] by (simp add: valid_number_def)

lemma numify_valid_number:
  "numify f = (if valid_number f then Inr (word_of_nat (digits_value f))
     else Inl (''Failed to convert '' @ [CHR 0x27] @ f @ [CHR 0x27] @ '' to number''))"
  by (simp add: numify_def valid_number_def)

lemma numify_decimal: "n < 2 ^ 64 \<Longrightarrow> numify (decimal n) = Inr (word_of_nat n)"
  using decimal_digits [of n] by (simp add: numify_def)

lemma unat_size_t: "n < 2 ^ 64 \<Longrightarrow> unat (word_of_nat n :: 64 word) = n"
  by (simp add: unat_of_nat)

subsection \<open>The scan of \<^verbatim>\<open>du\<close>\<close>

lemma du_foreach_find:
  "du_foreach p output lines =
     (case find (qualifying '' '' p) lines of
        None \<Rightarrow> Inl (''HDFS du returned an unexpected format: '' @ [CHR 0x27] @ output @ [CHR 0x27])
      | Some l \<Rightarrow>
          (case numify (hd (tokenize l '' '')) of
             Inl e \<Rightarrow> Inl (''HDFS du returned unexpected format: '' @ e)
           | Inr n \<Rightarrow> Inr (Bytes n)))"
proof (induction lines)
  case Nil
  then show ?case by simp
next
  case (Cons line lines)
  show ?case
  proof (cases "qualifying '' '' p line")
    case True
    then have len: "length (tokenize line '' '') = 2" and snd: "tokenize line '' '' ! 1 = p"
      by (simp_all add: qualifying_def Let_def)
    from len have hd: "tokenize line '' '' ! 0 = hd (tokenize line '' '')"
      by (cases "tokenize line '' ''") simp_all
    show ?thesis
      using True len snd hd
      by (cases "numify (hd (tokenize line '' ''))") (simp_all add: Let_def)
  next
    case False
    then show ?thesis
      using Cons.IH by (auto simp add: qualifying_def Let_def)
  qed
qed

lemma du_shell_ok:
  "shell w (du_command hdfs (absolutePath path) @ '' 2>&1'') = Inr output \<Longrightarrow>
   snd (du hdfs w path) = du_foreach (absolutePath path) output (tokenize output ''\<newline>'')"
  by (simp add: du_def Let_def)


subsection \<open>The aggregator\<close>

lemma result_ready_helper:
  "s_out s = Some fo \<Longrightarrow> s_err s = Some fe \<Longrightarrow>
   result w s = Some (result_continuation (s_status s, io_read w fo, io_read w fe))"
  by (simp add: result_def await_def)

lemma result_continuation_Ready_iff:
  "result_continuation (sf, ouf, erf) = Ready r \<longleftrightarrow>
     sf = Ready (status r) \<and> ouf = Ready (out r) \<and> erf = Ready (err r)"
  by (cases sf; cases ouf; cases erf; cases r) auto

text \<open>
  Claim C1. When the two streams are piped and the exit status, the read of stdout and
  the read of stderr are all ready, \<^verbatim>\<open>result\<close> is ready with the triple (status,
  stdout, stderr), never a failure; and it is ready with a triple only then, with
  exactly those three values. For a process that exits with status 0 and writes
  nothing, the triple is (0, "", "").
\<close>

theorem result_all_ready:
  assumes "s_out s = Some out_fd" and "s_err s = Some err_fd"
  shows "(s_status s = Ready st \<and> io_read w out_fd = Ready ou \<and> io_read w err_fd = Ready er \<longrightarrow>
            result w s = Some (Ready \<lparr>status = st, out = ou, err = er\<rparr>))
       \<and> (result w s = Some (Ready r) \<longleftrightarrow>
            s_status s = Ready (status r) \<and> io_read w out_fd = Ready (out r) \<and>
            io_read w err_fd = Ready (err r))"
proof -
  have res: "result w s = Some (result_continuation (s_status s, io_read w out_fd, io_read w err_fd))"
    using assms by (rule result_ready_helper)
  show ?thesis
    unfolding res
    by (simp add: result_continuation_Ready_iff del: result_continuation.simps)
qed

theorem result_all_ready_witness:
  "result (piped_world (Ready (Some 0)) (Ready []) (Ready [])) (piped_subprocess (Ready (Some 0)))
     = Some (Ready \<lparr>status = Some 0, out = [], err = []\<rparr>)"
proof -
  let ?s = "piped_subprocess (Ready (Some 0))"
  let ?w = "piped_world (Ready (Some 0)) (Ready []) (Ready [])"
  have fds: "s_out ?s = Some 5" "s_err ?s = Some 6"
    by (simp_all add: piped_subprocess_def)
  have ready: "s_status ?s = Ready (Some 0) \<and> io_read ?w 5 = Ready [] \<and> io_read ?w 6 = Ready []"
    by (simp add: piped_subprocess_def piped_world_def)
  from result_all_ready [OF fds, of "Some 0" ?w "[]" "[]"] ready show ?thesis
    by blast
qed

text \<open>
  Claim C2. When the exit status is ready and the read of stdout was discarded,
  \<^verbatim>\<open>result\<close> fails, whatever became of stderr; the message names stdout and says
  "discarded", and mentions neither the exit status nor stderr.
\<close>

theorem result_stdout_discarded:
  assumes "s_out s = Some out_fd" and "s_err s = Some err_fd"
    and "s_status s = Ready st" and "io_read w out_fd = Discarded"
  shows "\<exists>msg. result w s = Some (Failed msg)
           \<and> msg = ''Failed to read stdout from the subprocess: discarded''
           \<and> sublist ''stdout'' msg \<and> sublist ''discarded'' msg
           \<and> \<not> sublist ''exit status'' msg \<and> \<not> sublist ''stderr'' msg"
proof -
  have "result w s = Some (result_continuation (s_status s, io_read w out_fd, io_read w err_fd))"
    using assms(1,2) by (rule result_ready_helper)
  then have "result w s = Some (Failed ''Failed to read stdout from the subprocess: discarded'')"
    using assms(3,4) by simp
  moreover have "sublist ''stdout'' ''Failed to read stdout from the subprocess: discarded''"
    by code_simp
  moreover have "sublist ''discarded'' ''Failed to read stdout from the subprocess: discarded''"
    by code_simp
  moreover have "\<not> sublist ''exit status'' ''Failed to read stdout from the subprocess: discarded''"
    by code_simp
  moreover have "\<not> sublist ''stderr'' ''Failed to read stdout from the subprocess: discarded''"
    by code_simp
  ultimately show ?thesis by blast
qed

theorem result_stdout_discarded_witness:
  "result (piped_world (Ready (Some 0)) Discarded (Failed ''broken pipe''))
          (piped_subprocess (Ready (Some 0)))
     = Some (Failed ''Failed to read stdout from the subprocess: discarded'')"
proof -
  let ?s = "piped_subprocess (Ready (Some 0))"
  let ?w = "piped_world (Ready (Some 0)) Discarded (Failed ''broken pipe'')"
  have h: "s_out ?s = Some 5" "s_err ?s = Some 6" "s_status ?s = Ready (Some 0)"
      "io_read ?w 5 = Discarded"
    by (simp_all add: piped_subprocess_def piped_world_def)
  from result_stdout_discarded [OF h] show ?thesis by blast
qed

text \<open>
  Claim C10. One failure is reported, by a fixed priority: that of the exit status when
  it is not ready; else that of the read of stdout when it is not ready; else that of
  the read of stderr. Each message ends with the failure's own message, or with
  "discarded".
\<close>

theorem result_failure_priority:
  assumes "s_out s = Some out_fd" and "s_err s = Some err_fd"
  shows "(\<not> isReady (s_status s) \<longrightarrow>
            result w s = Some (Failed (''Failed to get the exit status of the subprocess: '' @
              (case s_status s of Failed m \<Rightarrow> m | _ \<Rightarrow> ''discarded''))))
       \<and> (isReady (s_status s) \<and> \<not> isReady (io_read w out_fd) \<longrightarrow>
            result w s = Some (Failed (''Failed to read stdout from the subprocess: '' @
              (case io_read w out_fd of Failed m \<Rightarrow> m | _ \<Rightarrow> ''discarded''))))
       \<and> (isReady (s_status s) \<and> isReady (io_read w out_fd) \<and> \<not> isReady (io_read w err_fd) \<longrightarrow>
            result w s = Some (Failed (''Failed to read stderr from the subprocess: '' @
              (case io_read w err_fd of Failed m \<Rightarrow> m | _ \<Rightarrow> ''discarded''))))"
proof -
  have res: "result w s = Some (result_continuation (s_status s, io_read w out_fd, io_read w err_fd))"
    using assms by (rule result_ready_helper)
  show ?thesis
    unfolding res
    by (cases "s_status s"; cases "io_read w out_fd"; cases "io_read w err_fd") simp_all
qed

theorem result_failure_priority_witness:
  "result (piped_world (Failed ''wait failed'') (Ready ''x'') (Failed ''read failed''))
          (piped_subprocess (Failed ''wait failed''))
     = Some (Failed ''Failed to get the exit status of the subprocess: wait failed'')
   \<and> result (piped_world (Ready None) Discarded (Failed ''read failed''))
          (piped_subprocess (Ready None))
     = Some (Failed ''Failed to read stdout from the subprocess: discarded'')
   \<and> result (piped_world (Ready None) (Ready ''x'') (Failed ''read failed''))
          (piped_subprocess (Ready None))
     = Some (Failed ''Failed to read stderr from the subprocess: read failed'')"
proof -
  have fds: "s_out (piped_subprocess st) = Some 5" "s_err (piped_subprocess st) = Some 6" for st
    by (simp_all add: piped_subprocess_def)
  show ?thesis
    using result_failure_priority [OF fds, of "Failed ''wait failed''"
        "piped_world (Failed ''wait failed'') (Ready ''x'') (Failed ''read failed'')"]
      result_failure_priority [OF fds, of "Ready None"
        "piped_world (Ready None) Discarded (Failed ''read failed'')"]
      result_failure_priority [OF fds, of "Ready None"
        "piped_world (Ready None) (Ready ''x'') (Failed ''read failed'')"]
    by (simp add: piped_subprocess_def piped_world_def)
qed

subsection \<open>Path normalization\<close>

lemma path_join_empty_base: "path_join [] p = ''/'' @ remove p ''/'' PREFIX"
  by (simp add: path_join_def endsWith_def)

lemma absolutePath_qualified:
  "startsWith p ''hdfs://'' \<or> startsWith p ''/'' \<Longrightarrow> absolutePath p = p"
  by (simp add: absolutePath_def)

lemma absolutePath_bare:
  "\<not> (startsWith p ''hdfs://'' \<or> startsWith p ''/'') \<Longrightarrow> absolutePath p = ''/'' @ p"
  by (simp add: absolutePath_def path_join_empty_base)

lemma startsWith_slash: "startsWith (''/'' @ p) ''/''"
  by (simp add: startsWith_def)

text \<open>
  Claim C7. \<^verbatim>\<open>absolutePath\<close> leaves a path that starts with \<^verbatim>\<open>hdfs://\<close> or with
  \<^verbatim>\<open>/\<close> unchanged, and applying it twice to any path, bare or not, gives the same
  as applying it once.
\<close>

theorem absolutePath_idempotent:
  "(startsWith p ''hdfs://'' \<or> startsWith p ''/'' \<longrightarrow> absolutePath p = p)
   \<and> absolutePath (absolutePath p) = absolutePath p"
proof (cases "startsWith p ''hdfs://'' \<or> startsWith p ''/''")
  case True
  then show ?thesis by (simp add: absolutePath_qualified)
next
  case False
  then have "absolutePath p = ''/'' @ p" by (rule absolutePath_bare)
  moreover have "absolutePath (''/'' @ p) = ''/'' @ p"
    using startsWith_slash [of p] by (intro absolutePath_qualified) simp
  ultimately show ?thesis using False by simp
qed

theorem absolutePath_idempotent_witness:
  "absolutePath ''hdfs://namenode/data'' = ''hdfs://namenode/data''
   \<and> absolutePath ''/data/file'' = ''/data/file''
   \<and> absolutePath ''data/file'' = ''/data/file''
   \<and> absolutePath (absolutePath ''data/file'') = absolutePath ''data/file''"
proof -
  have a: "startsWith ''hdfs://namenode/data'' ''hdfs://''" by (simp add: startsWith_def)
  have b: "startsWith ''/data/file'' ''/''" by (simp add: startsWith_def)
  have c: "absolutePath ''data/file'' = ''/data/file''"
    by (simp add: absolutePath_def startsWith_def path_join_def endsWith_def)
  from absolutePath_idempotent [of "''hdfs://namenode/data''"]
    absolutePath_idempotent [of "''/data/file''"]
    absolutePath_idempotent [of "''data/file''"] a b c
  show ?thesis by blast
qed

subsection \<open>The commands issued\<close>

text \<open>
  Claim C6. When the local source does not exist, \<^verbatim>\<open>copyFromLocal\<close> returns the error
  "Failed to find " followed by the source, and its trace is empty: no command was
  formatted or run. The trace is empty in that case only.
\<close>

theorem copyFromLocal_missing_source:
  "(\<not> os_exists w from \<longrightarrow>
      copyFromLocal hdfs w from to = ([], Inl (''Failed to find '' @ from)))
   \<and> (fst (copyFromLocal hdfs w from to) = [] \<longleftrightarrow> \<not> os_exists w from)"
  by (simp add: copyFromLocal_def Let_def)

theorem copyFromLocal_missing_source_witness:
  "copyFromLocal \<lparr>hadoop = ''hadoop''\<rparr>
     (shell_world no_env (only_file ''/tmp/present'')
        (answers (copy_command \<lparr>hadoop = ''hadoop''\<rparr> ''copyFromLocal'' ''/tmp/missing'' ''/dst'') []))
     ''/tmp/missing'' ''/dst''
   = ([], Inl ''Failed to find /tmp/missing'')"
proof -
  let ?w = "shell_world no_env (only_file ''/tmp/present'')
        (answers (copy_command \<lparr>hadoop = ''hadoop''\<rparr> ''copyFromLocal'' ''/tmp/missing'' ''/dst'') [])"
  have missing: "\<not> os_exists ?w ''/tmp/missing''"
    by (simp add: shell_world_def only_file_def)
  from copyFromLocal_missing_source [of ?w "''/tmp/missing''" "\<lparr>hadoop = ''hadoop''\<rparr>" "''/dst''"] missing
  show ?thesis by simp
qed

text \<open>
  Claim C8, as amended. The HDFS-side path of each operation goes through
  \<^verbatim>\<open>absolutePath\<close> before it is put into the command: the path of \<^verbatim>\<open>exists\<close>, \<^verbatim>\<open>du\<close>
  and \<^verbatim>\<open>rm\<close>, the destination of \<^verbatim>\<open>copyFromLocal\<close>, the source of \<^verbatim>\<open>copyToLocal\<close>.
  The local-side path (the source of \<^verbatim>\<open>copyFromLocal\<close>, the destination of
  \<^verbatim>\<open>copyToLocal\<close>) is put into the command as given. \<^verbatim>\<open>absolutePath\<close> leaves a path
  with the scheme or a leading separator unchanged and joins any other to the empty
  base, which puts a separator in front.
\<close>

theorem hdfs_paths_resolved:
  "fst (exists hdfs w path) =
     [Exec (hadoop hdfs) [''hadoop'', ''fs'', ''-test'', ''-e'', absolutePath path]
        (PATH ''/dev/null'') PIPE PIPE]
   \<and> fst (du hdfs w path) =
     [Shell (hadoop hdfs @ '' fs -du '' @ [CHR 0x27] @ absolutePath path @ [CHR 0x27] @ '' 2>&1'')]
   \<and> fst (rm hdfs w path) =
     [Shell (hadoop hdfs @ '' fs -rm '' @ [CHR 0x27] @ absolutePath path @ [CHR 0x27])]
   \<and> (os_exists w from \<longrightarrow> fst (copyFromLocal hdfs w from to) =
     [Shell (hadoop hdfs @ '' fs -copyFromLocal '' @ [CHR 0x27] @ from @ [CHR 0x27] @ '' '' @
        [CHR 0x27] @ absolutePath to @ [CHR 0x27])])
   \<and> fst (copyToLocal hdfs w from to) =
     [Shell (hadoop hdfs @ '' fs -copyToLocal '' @ [CHR 0x27] @ absolutePath from @ [CHR 0x27] @ '' '' @
        [CHR 0x27] @ to @ [CHR 0x27])]
   \<and> (startsWith path ''hdfs://'' \<or> startsWith path ''/'' \<longrightarrow> absolutePath path = path)
   \<and> (\<not> (startsWith path ''hdfs://'' \<or> startsWith path ''/'') \<longrightarrow>
        absolutePath path = path_join [] path \<and> absolutePath path = ''/'' @ path)"
proof -
  have "fst (exists hdfs w path) =
     [Exec (hadoop hdfs) [''hadoop'', ''fs'', ''-test'', ''-e'', absolutePath path]
        (PATH ''/dev/null'') PIPE PIPE]"
    by (simp add: exists_def exists_argv_def)
  moreover have "fst (du hdfs w path) =
     [Shell (hadoop hdfs @ '' fs -du '' @ [CHR 0x27] @ absolutePath path @ [CHR 0x27] @ '' 2>&1'')]"
    by (simp add: du_def du_command_def Let_def)
  moreover have "fst (rm hdfs w path) =
     [Shell (hadoop hdfs @ '' fs -rm '' @ [CHR 0x27] @ absolutePath path @ [CHR 0x27])]"
    by (simp add: rm_def rm_command_def Let_def)
  moreover have "os_exists w from \<longrightarrow> fst (copyFromLocal hdfs w from to) =
     [Shell (hadoop hdfs @ '' fs -copyFromLocal '' @ [CHR 0x27] @ from @ [CHR 0x27] @ '' '' @
        [CHR 0x27] @ absolutePath to @ [CHR 0x27])]"
    by (simp add: copyFromLocal_def copy_command_def Let_def)
  moreover have "fst (copyToLocal hdfs w from to) =
     [Shell (hadoop hdfs @ '' fs -copyToLocal '' @ [CHR 0x27] @ absolutePath from @ [CHR 0x27] @ '' '' @
        [CHR 0x27] @ to @ [CHR 0x27])]"
    by (simp add: copyToLocal_def copy_command_def Let_def)
  moreover have "startsWith path ''hdfs://'' \<or> startsWith path ''/'' \<longrightarrow> absolutePath path = path"
    by (simp add: absolutePath_qualified)
  moreover have "\<not> (startsWith path ''hdfs://'' \<or> startsWith path ''/'') \<longrightarrow>
        absolutePath path = path_join [] path \<and> absolutePath path = ''/'' @ path"
    using absolutePath_bare [of path] by (simp add: absolutePath_def)
  ultimately show ?thesis by blast
qed

theorem hdfs_paths_resolved_witness:
  "fst (exists \<lparr>hadoop = ''hadoop''\<rparr> (shell_world no_env (only_file ''/tmp/present'') (answers [] []))
        ''data/file'') =
     [Exec ''hadoop'' [''hadoop'', ''fs'', ''-test'', ''-e'', ''/data/file''] (PATH ''/dev/null'') PIPE PIPE]
   \<and> fst (du \<lparr>hadoop = ''hadoop''\<rparr> (shell_world no_env (only_file ''/tmp/present'') (answers [] []))
        ''hdfs://namenode/data'') =
     [Shell (''hadoop fs -du '' @ [CHR 0x27] @ ''hdfs://namenode/data'' @ [CHR 0x27] @ '' 2>&1'')]
   \<and> fst (copyFromLocal \<lparr>hadoop = ''hadoop''\<rparr>
        (shell_world no_env (only_file ''/tmp/present'') (answers [] [])) ''/tmp/present'' ''data/file'') =
     [Shell (''hadoop fs -copyFromLocal '' @ [CHR 0x27] @ ''/tmp/present'' @ [CHR 0x27] @ '' '' @
        [CHR 0x27] @ ''/data/file'' @ [CHR 0x27])]"
proof -
  let ?h = "\<lparr>hadoop = ''hadoop''\<rparr>"
  let ?w = "shell_world no_env (only_file ''/tmp/present'') (answers [] [])"
  have present: "os_exists ?w ''/tmp/present''"
    by (simp add: shell_world_def only_file_def)
  have bare: "\<not> (startsWith ''data/file'' ''hdfs://'' \<or> startsWith ''data/file'' ''/'')"
    by (simp add: startsWith_def)
  have with_scheme: "startsWith ''hdfs://namenode/data'' ''hdfs://'' \<or> startsWith ''hdfs://namenode/data'' ''/''"
    by (simp add: startsWith_def)
  from hdfs_paths_resolved [of ?h ?w "''data/file''" "''/tmp/present''" "''data/file''"]
    hdfs_paths_resolved [of ?h ?w "''hdfs://namenode/data''" "''/tmp/present''" "''data/file''"]
    present bare with_scheme
  show ?thesis
    by (simp add: absolutePath_def startsWith_def path_join_def endsWith_def)
qed

text \<open>
  The claim C8 as first stated ("every path argument") fails on the local side: the
  bare local paths \<^verbatim>\<open>local.txt\<close> and \<^verbatim>\<open>out.txt\<close> reach the command unchanged, though
  \<^verbatim>\<open>absolutePath\<close> would put a separator in front of them.
\<close>

theorem local_paths_not_resolved:
  "fst (copyFromLocal \<lparr>hadoop = ''hadoop''\<rparr>
        (shell_world no_env (only_file ''local.txt'') (answers [] [])) ''local.txt'' ''dst'') =
     [Shell (''hadoop fs -copyFromLocal '' @ [CHR 0x27] @ ''local.txt'' @ [CHR 0x27] @ '' '' @
        [CHR 0x27] @ ''/dst'' @ [CHR 0x27])]
   \<and> absolutePath ''local.txt'' = ''/local.txt''
   \<and> fst (copyFromLocal \<lparr>hadoop = ''hadoop''\<rparr>
        (shell_world no_env (only_file ''local.txt'') (answers [] [])) ''local.txt'' ''dst'') \<noteq>
     [Shell (''hadoop fs -copyFromLocal '' @ [CHR 0x27] @ absolutePath ''local.txt'' @ [CHR 0x27] @ '' '' @
        [CHR 0x27] @ absolutePath ''dst'' @ [CHR 0x27])]
   \<and> fst (copyToLocal \<lparr>hadoop = ''hadoop''\<rparr>
        (shell_world no_env (only_file ''local.txt'') (answers [] [])) ''src'' ''out.txt'') =
     [Shell (''hadoop fs -copyToLocal '' @ [CHR 0x27] @ ''/src'' @ [CHR 0x27] @ '' '' @
        [CHR 0x27] @ ''out.txt'' @ [CHR 0x27])]
   \<and> absolutePath ''out.txt'' = ''/out.txt''"
  by (simp add: copyFromLocal_def copyToLocal_def copy_command_def Let_def shell_world_def
      only_file_def absolutePath_def startsWith_def path_join_def endsWith_def)

subsection \<open>Construction\<close>

lemma path_join_bin_hadoop: "path_join3 home ''bin'' ''hadoop'' = path_join home ''bin/hadoop''"
  by (simp add: path_join3_def path_join_def [of "''bin''"] endsWith_def startsWith_def)

text \<open>
  Claim C9. \<^verbatim>\<open>HDFS::create\<close> picks the client in strict order: the explicit value when
  one is given (whatever the environment says); else \<^verbatim>\<open>HADOOP_HOME\<close> joined with
  \<^verbatim>\<open>bin/hadoop\<close> when the variable is set; else the bare name \<^verbatim>\<open>hadoop\<close>. It then
  runs \<open>client version 2>&1\<close> and returns an error exactly when that command fails,
  else the client object.
\<close>

theorem create_resolves_client:
  "(hadoop_opt = Some h \<longrightarrow> checks_client w hadoop_opt h)
   \<and> (hadoop_opt = None \<and> getenv w ''HADOOP_HOME'' = Some home \<longrightarrow>
        checks_client w hadoop_opt (path_join home ''bin/hadoop''))
   \<and> (hadoop_opt = None \<and> getenv w ''HADOOP_HOME'' = None \<longrightarrow>
        checks_client w hadoop_opt ''hadoop'')"
proof -
  have "checks_client w (Some h) h"
    by (simp add: checks_client_def create_def Let_def split: sum.splits)
  moreover have "checks_client w None (path_join home ''bin/hadoop'')"
    if "getenv w ''HADOOP_HOME'' = Some home"
    using that
    by (simp add: checks_client_def create_def Let_def path_join_bin_hadoop split: sum.splits)
  moreover have "checks_client w None ''hadoop''" if "getenv w ''HADOOP_HOME'' = None"
    using that by (simp add: checks_client_def create_def Let_def split: sum.splits)
  ultimately show ?thesis by blast
qed

theorem create_resolves_client_witness:
  "create (shell_world (home_env ''/opt/hadoop'') no_files
            (answers ''/usr/bin/hadoop version 2>&1'' ''Hadoop 2.7.1''))
          (Some ''/usr/bin/hadoop'')
     = ([Shell ''/usr/bin/hadoop version 2>&1''], Inr \<lparr>hadoop = ''/usr/bin/hadoop''\<rparr>)
   \<and> create (shell_world (home_env ''/opt/hadoop'') no_files
            (answers ''/opt/hadoop/bin/hadoop version 2>&1'' ''Hadoop 2.7.1''))
          None
     = ([Shell ''/opt/hadoop/bin/hadoop version 2>&1''], Inr \<lparr>hadoop = ''/opt/hadoop/bin/hadoop''\<rparr>)
   \<and> create (shell_world no_env no_files (answers ''hadoop version 2>&1'' ''Hadoop 2.7.1'')) None
     = ([Shell ''hadoop version 2>&1''], Inr \<lparr>hadoop = ''hadoop''\<rparr>)
   \<and> create (shell_world no_env no_files (answers ''/usr/bin/hadoop version 2>&1'' ''Hadoop 2.7.1''))
          None
     = ([Shell ''hadoop version 2>&1''], Inl ''command failed'')"
proof -
  let ?w1 = "shell_world (home_env ''/opt/hadoop'') no_files
            (answers ''/usr/bin/hadoop version 2>&1'' ''Hadoop 2.7.1'')"
  let ?w2 = "shell_world (home_env ''/opt/hadoop'') no_files
            (answers ''/opt/hadoop/bin/hadoop version 2>&1'' ''Hadoop 2.7.1'')"
  let ?w3 = "shell_world no_env no_files (answers ''hadoop version 2>&1'' ''Hadoop 2.7.1'')"
  let ?w4 = "shell_world no_env no_files (answers ''/usr/bin/hadoop version 2>&1'' ''Hadoop 2.7.1'')"
  have pj: "path_join ''/opt/hadoop'' ''bin/hadoop'' = ''/opt/hadoop/bin/hadoop''"
    by (simp add: path_join_def endsWith_def startsWith_def)
  have e2: "getenv ?w2 ''HADOOP_HOME'' = Some ''/opt/hadoop''"
    by (simp add: shell_world_def home_env_def)
  have e3: "getenv ?w3 ''HADOOP_HOME'' = None" "getenv ?w4 ''HADOOP_HOME'' = None"
    by (simp_all add: shell_world_def no_env_def)
  have c1: "checks_client ?w1 (Some ''/usr/bin/hadoop'') ''/usr/bin/hadoop''"
    using create_resolves_client [of "Some ''/usr/bin/hadoop''" "''/usr/bin/hadoop''" ?w1] by simp
  have c2: "checks_client ?w2 None ''/opt/hadoop/bin/hadoop''"
    using create_resolves_client [of None _ ?w2 "''/opt/hadoop''"] e2 pj by simp
  have c3: "checks_client ?w3 None ''hadoop''"
    using create_resolves_client [of None _ ?w3] e3 by simp
  have c4: "checks_client ?w4 None ''hadoop''"
    using create_resolves_client [of None _ ?w4] e3 by simp
  have s1: "shell ?w1 (''/usr/bin/hadoop'' @ '' version 2>&1'') = Inr ''Hadoop 2.7.1''"
    by (simp add: shell_world_def answers_def)
  have s2: "shell ?w2 (''/opt/hadoop/bin/hadoop'' @ '' version 2>&1'') = Inr ''Hadoop 2.7.1''"
    by (simp add: shell_world_def answers_def)
  have s3: "shell ?w3 (''hadoop'' @ '' version 2>&1'') = Inr ''Hadoop 2.7.1''"
    by (simp add: shell_world_def answers_def)
  have s4: "shell ?w4 (''hadoop'' @ '' version 2>&1'') = Inl ''command failed''"
    by (simp add: shell_world_def answers_def)
  have "create ?w1 (Some ''/usr/bin/hadoop'')
      = ([Shell ''/usr/bin/hadoop version 2>&1''], Inr \<lparr>hadoop = ''/usr/bin/hadoop''\<rparr>)"
    using c1 s1 unfolding checks_client_def by (simp add: prod_eq_iff)
  moreover have "create ?w2 None
      = ([Shell ''/opt/hadoop/bin/hadoop version 2>&1''], Inr \<lparr>hadoop = ''/opt/hadoop/bin/hadoop''\<rparr>)"
    using c2 s2 unfolding checks_client_def by (simp add: prod_eq_iff)
  moreover have "create ?w3 None = ([Shell ''hadoop version 2>&1''], Inr \<lparr>hadoop = ''hadoop''\<rparr>)"
    using c3 s3 unfolding checks_client_def by (simp add: prod_eq_iff)
  moreover have "create ?w4 None = ([Shell ''hadoop version 2>&1''], Inl ''command failed'')"
    using c4 s4 unfolding checks_client_def by (simp add: prod_eq_iff)
  ultimately show ?thesis by blast
qed

subsection \<open>The existence test\<close>

lemma piped_launch:
  "subprocess (piped_world st ou er) client argv i o1 o2 = Inr (piped_subprocess st)"
  by (simp add: piped_world_def)

lemma piped_result:
  "result (piped_world (Ready st) (Ready ou) (Ready er)) (piped_subprocess (Ready st)) =
     Some (Ready \<lparr>status = st, out = ou, err = er\<rparr>)"
  by (simp add: result_def await_def piped_world_def piped_subprocess_def)

lemma exists_via_result:
  assumes "subprocess w (hadoop hdfs) (exists_argv path) (PATH ''/dev/null'') PIPE PIPE = Inr s"
    and "result w s = Some (Ready r)"
  shows "snd (exists hdfs w path) = Some (exists_continuation r)"
  using assms by (simp add: exists_def)

text \<open>
  Claim C3, as amended. Once the subprocess is launched and its result aggregated,
  \<^verbatim>\<open>exists\<close> is true exactly for a normal exit with code 0 and false exactly for a
  normal exit with code 1. A missing status gives the error "Failed to reap the
  subprocess". Every other status (another exit code, or a termination by a signal)
  gives the "Unexpected result" error, whose message holds the status in decimal, the
  captured stdout and the captured stderr.
\<close>

theorem exists_by_exit_code:
  assumes "subprocess w (hadoop hdfs) (exists_argv path) (PATH ''/dev/null'') PIPE PIPE = Inr s"
    and "result w s = Some (Ready r)"
  shows "(snd (exists hdfs w path) = Some (Ready True) \<longleftrightarrow>
            (\<exists>st. status r = Some st \<and> WIFEXITED st \<and> WEXITSTATUS st = 0))
       \<and> (snd (exists hdfs w path) = Some (Ready False) \<longleftrightarrow>
            (\<exists>st. status r = Some st \<and> WIFEXITED st \<and> WEXITSTATUS st = 1))
       \<and> (status r = None \<longrightarrow>
            snd (exists hdfs w path) = Some (Failed ''Failed to reap the subprocess''))
       \<and> (\<forall>st. status r = Some st \<and> \<not> (WIFEXITED st \<and> (WEXITSTATUS st = 0 \<or> WEXITSTATUS st = 1)) \<longrightarrow>
            (\<exists>msg. snd (exists hdfs w path) = Some (Failed msg)
               \<and> msg = ''Unexpected result from the subprocess: status='' @ [CHR 0x27] @
                   stringify st @ [CHR 0x27] @ '', stdout='' @ [CHR 0x27] @ out r @ [CHR 0x27] @
                   '', stderr='' @ [CHR 0x27] @ err r @ [CHR 0x27]
               \<and> sublist (stringify st) msg \<and> sublist (out r) msg \<and> sublist (err r) msg))"
proof -
  have ex: "snd (exists hdfs w path) = Some (exists_continuation r)"
    using assms by (rule exists_via_result)
  have t: "exists_continuation r = Ready True \<longleftrightarrow>
      (\<exists>st. status r = Some st \<and> WIFEXITED st \<and> WEXITSTATUS st = 0)"
    by (cases "status r") (auto simp add: exists_continuation_def)
  have f: "exists_continuation r = Ready False \<longleftrightarrow>
      (\<exists>st. status r = Some st \<and> WIFEXITED st \<and> WEXITSTATUS st = 1)"
    by (cases "status r") (auto simp add: exists_continuation_def)
  have n: "status r = None \<longrightarrow> exists_continuation r = Failed ''Failed to reap the subprocess''"
    by (simp add: exists_continuation_def)
  have u: "\<exists>msg. exists_continuation r = Failed msg
               \<and> msg = ''Unexpected result from the subprocess: status='' @ [CHR 0x27] @
                   stringify st @ [CHR 0x27] @ '', stdout='' @ [CHR 0x27] @ out r @ [CHR 0x27] @
                   '', stderr='' @ [CHR 0x27] @ err r @ [CHR 0x27]
               \<and> sublist (stringify st) msg \<and> sublist (out r) msg \<and> sublist (err r) msg"
    if st: "status r = Some st"
      and other: "\<not> (WIFEXITED st \<and> (WEXITSTATUS st = 0 \<or> WEXITSTATUS st = 1))"
    for st
  proof -
    let ?a = "''Unexpected result from the subprocess: status='' @ [CHR 0x27]"
    let ?b = "[CHR 0x27] @ '', stdout='' @ [CHR 0x27]"
    let ?c = "[CHR 0x27] @ '', stderr='' @ [CHR 0x27]"
    let ?msg = "?a @ stringify st @ ?b @ out r @ ?c @ err r @ [CHR 0x27]"
    have "exists_continuation r = Failed ?msg"
      using st other by (auto simp add: exists_continuation_def)
    moreover have "sublist (stringify st) ?msg"
      by (rule sublist_appendI)
    moreover have "sublist (out r) ((?a @ stringify st @ ?b) @ out r @ (?c @ err r @ [CHR 0x27]))"
      by (rule sublist_appendI)
    moreover have "sublist (err r) ((?a @ stringify st @ ?b @ out r @ ?c) @ err r @ [CHR 0x27])"
      by (rule sublist_appendI)
    ultimately show ?thesis by simp
  qed
  show ?thesis
    unfolding ex using t f n u by simp
qed

theorem exists_by_exit_code_witness:
  "snd (exists \<lparr>hadoop = ''hadoop''\<rparr> (piped_world (Ready (Some 0)) (Ready []) (Ready [])) ''/data/file'')
     = Some (Ready True)
   \<and> snd (exists \<lparr>hadoop = ''hadoop''\<rparr> (piped_world (Ready (Some 256)) (Ready []) (Ready [])) ''/data/file'')
     = Some (Ready False)
   \<and> snd (exists \<lparr>hadoop = ''hadoop''\<rparr> (piped_world (Ready (Some 512)) (Ready ''o'') (Ready ''e'')) ''/data/file'')
     = Some (Failed (''Unexpected result from the subprocess: status='' @ [CHR 0x27] @ ''512'' @
         [CHR 0x27] @ '', stdout='' @ [CHR 0x27] @ ''o'' @ [CHR 0x27] @ '', stderr='' @ [CHR 0x27] @
         ''e'' @ [CHR 0x27]))
   \<and> snd (exists \<lparr>hadoop = ''hadoop''\<rparr> (piped_world (Ready (Some 9)) (Ready ''o'') (Ready ''e'')) ''/data/file'')
     = Some (Failed (''Unexpected result from the subprocess: status='' @ [CHR 0x27] @ ''9'' @
         [CHR 0x27] @ '', stdout='' @ [CHR 0x27] @ ''o'' @ [CHR 0x27] @ '', stderr='' @ [CHR 0x27] @
         ''e'' @ [CHR 0x27]))
   \<and> snd (exists \<lparr>hadoop = ''hadoop''\<rparr> (piped_world (Ready None) (Ready ''o'') (Ready ''e'')) ''/data/file'')
     = Some (Failed ''Failed to reap the subprocess'')"
proof -
  let ?h = "\<lparr>hadoop = ''hadoop''\<rparr>"
  have w0: "WIFEXITED 0 \<and> WEXITSTATUS 0 = 0" by (simp add: WIFEXITED_def WEXITSTATUS_def)
  have w256: "WIFEXITED 256 \<and> WEXITSTATUS 256 = 1" by (simp add: WIFEXITED_def WEXITSTATUS_def)
  have w512: "\<not> (WIFEXITED 512 \<and> (WEXITSTATUS 512 = 0 \<or> WEXITSTATUS 512 = 1))"
    by (simp add: WIFEXITED_def WEXITSTATUS_def)
  have w9: "\<not> (WIFEXITED 9 \<and> (WEXITSTATUS 9 = 0 \<or> WEXITSTATUS 9 = 1))"
    by (simp add: WIFEXITED_def WEXITSTATUS_def)
  have s512: "stringify 512 = ''512''" by code_simp
  have s9: "stringify 9 = ''9''" by code_simp
  have "snd (exists ?h (piped_world (Ready (Some 0)) (Ready []) (Ready [])) ''/data/file'')
      = Some (Ready True)"
    using exists_by_exit_code [where w = "piped_world (Ready (Some 0)) (Ready []) (Ready [])" and hdfs = ?h
        and path = "''/data/file''", OF piped_launch piped_result] w0
    by simp
  moreover have "snd (exists ?h (piped_world (Ready (Some 256)) (Ready []) (Ready [])) ''/data/file'')
      = Some (Ready False)"
    using exists_by_exit_code [where w = "piped_world (Ready (Some 256)) (Ready []) (Ready [])" and hdfs = ?h
        and path = "''/data/file''", OF piped_launch piped_result] w256
    by simp
  moreover have "snd (exists ?h (piped_world (Ready (Some 512)) (Ready ''o'') (Ready ''e'')) ''/data/file'')
      = Some (Failed (''Unexpected result from the subprocess: status='' @ [CHR 0x27] @ ''512'' @
         [CHR 0x27] @ '', stdout='' @ [CHR 0x27] @ ''o'' @ [CHR 0x27] @ '', stderr='' @ [CHR 0x27] @
         ''e'' @ [CHR 0x27]))"
    using exists_by_exit_code [where w = "piped_world (Ready (Some 512)) (Ready ''o'') (Ready ''e'')" and hdfs = ?h
        and path = "''/data/file''", OF piped_launch piped_result]
      w512 s512
    by simp
  moreover have "snd (exists ?h (piped_world (Ready (Some 9)) (Ready ''o'') (Ready ''e'')) ''/data/file'')
      = Some (Failed (''Unexpected result from the subprocess: status='' @ [CHR 0x27] @ ''9'' @
         [CHR 0x27] @ '', stdout='' @ [CHR 0x27] @ ''o'' @ [CHR 0x27] @ '', stderr='' @ [CHR 0x27] @
         ''e'' @ [CHR 0x27]))"
    using exists_by_exit_code [where w = "piped_world (Ready (Some 9)) (Ready ''o'') (Ready ''e'')" and hdfs = ?h
        and path = "''/data/file''", OF piped_launch piped_result]
      w9 s9
    by simp
  moreover have "snd (exists ?h (piped_world (Ready None) (Ready ''o'') (Ready ''e'')) ''/data/file'')
      = Some (Failed ''Failed to reap the subprocess'')"
    using exists_by_exit_code [where w = "piped_world (Ready None) (Ready ''o'') (Ready ''e'')" and hdfs = ?h
        and path = "''/data/file''", OF piped_launch piped_result]
    by simp
  ultimately show ?thesis by blast
qed

text \<open>
  The claim C3 as first stated fails for a missing status: the error is the fixed text
  "Failed to reap the subprocess", which holds neither the captured stdout nor the
  captured stderr.
\<close>

theorem exists_missing_status_message:
  "snd (exists \<lparr>hadoop = ''hadoop''\<rparr> (piped_world (Ready None) (Ready ''OUT'') (Ready ''ERR''))
        ''/data/file'')
     = Some (Failed ''Failed to reap the subprocess'')
   \<and> \<not> sublist ''OUT'' ''Failed to reap the subprocess''
   \<and> \<not> sublist ''ERR'' ''Failed to reap the subprocess''"
proof -
  have "snd (exists \<lparr>hadoop = ''hadoop''\<rparr> (piped_world (Ready None) (Ready ''OUT'') (Ready ''ERR''))
        ''/data/file'') = Some (Failed ''Failed to reap the subprocess'')"
    by (simp add: exists_def piped_launch piped_result exists_continuation_def)
  moreover have "\<not> sublist ''OUT'' ''Failed to reap the subprocess''" by code_simp
  moreover have "\<not> sublist ''ERR'' ''Failed to reap the subprocess''" by code_simp
  ultimately show ?thesis by blast
qed

subsection \<open>The disk-usage query\<close>

lemma decimal_no_space: "CHR '' '' \<notin> set (decimal n)"
proof
  assume "CHR '' '' \<in> set (decimal n)"
  moreover have "list_all isdigit (decimal n)" using decimal_digits [of n] by simp
  ultimately have "isdigit (CHR '' '')" by (simp add: list_all_iff)
  then show False by (simp add: isdigit_def)
qed

lemma absolutePath_nonempty: "absolutePath p \<noteq> []"
  by (cases p) (simp_all add: absolutePath_def startsWith_def path_join_def endsWith_def)

lemma find_first:
  "\<forall>x\<in>set pre. \<not> P x \<Longrightarrow> P l \<Longrightarrow> find P (pre @ l # post) = Some l"
  by (induction pre) simp_all

lemma spaced_line_fields:
  assumes "CHR '' '' \<notin> set p" and "p \<noteq> []"
  shows "tokenize (replicate i (CHR '' '') @ decimal n @ replicate (Suc j) (CHR '' '') @ p @
            replicate k (CHR '' '')) '' '' = [decimal n, p]"
proof -
  have "decimal n \<noteq> []" using decimal_digits [of n] by simp
  moreover have "set (decimal n) \<inter> set '' '' = {}" using decimal_no_space [of n] by simp
  moreover have "set p \<inter> set '' '' = {}" using assms(1) by simp
  ultimately show ?thesis
    using assms(2) by (intro tokenize_two_fields) simp_all
qed

text \<open>
  Claim C4, as amended. When the shell command succeeds, \<^verbatim>\<open>du\<close> scans the lines of the
  output in order, splits each line on the space character only (runs of spaces
  collapse; a tab is part of a field), and the first line with exactly two fields
  whose second is the normalized path decides: when its first field is a string of
  decimal digits whose value fits a \<^verbatim>\<open>size_t\<close> (below 2^64), that value is the byte
  count, unchanged. In particular a line made of any spaces, the decimal digits of
  \<open>n < 2^64\<close>, one or more spaces, the path and any spaces gives \<open>n\<close> bytes when no
  earlier line qualifies. The witness is the output
  \<^verbatim>\<open>1234 /data/file\nWARN: noisy line\n\<close> for the path \<^verbatim>\<open>/data/file\<close>: 1234 bytes.
\<close>

theorem du_first_qualifying_line:
  assumes "shell w (du_command hdfs (absolutePath path) @ '' 2>&1'') = Inr output"
  shows "(\<forall>l. find (qualifying '' '' (absolutePath path)) (tokenize output ''\<newline>'') = Some l
              \<and> valid_number (hd (tokenize l '' '')) \<longrightarrow>
            (\<exists>b. snd (du hdfs w path) = Inr (Bytes b)
               \<and> unat b = digits_value (hd (tokenize l '' ''))))
       \<and> (\<forall>pre post i j k n.
            tokenize output ''\<newline>'' =
              pre @ (replicate i (CHR '' '') @ decimal n @ replicate (Suc j) (CHR '' '') @
                     absolutePath path @ replicate k (CHR '' '')) # post
            \<and> (\<forall>x\<in>set pre. \<not> qualifying '' '' (absolutePath path) x)
            \<and> CHR '' '' \<notin> set (absolutePath path)
            \<and> n < 2 ^ 64 \<longrightarrow>
            (\<exists>b. snd (du hdfs w path) = Inr (Bytes b) \<and> unat b = n))"
proof -
  let ?p = "absolutePath path"
  let ?lines = "tokenize output ''\<newline>''"
  have scan: "snd (du hdfs w path) = du_foreach ?p output ?lines"
    using assms by (rule du_shell_ok)
  have first: "\<exists>b. snd (du hdfs w path) = Inr (Bytes b) \<and> unat b = digits_value (hd (tokenize l '' ''))"
    if found: "find (qualifying '' '' ?p) ?lines = Some l"
      and valid: "valid_number (hd (tokenize l '' ''))"
    for l
  proof -
    let ?f = "hd (tokenize l '' '')"
    have "numify ?f = Inr (word_of_nat (digits_value ?f))"
      using valid by (simp add: numify_valid_number)
    then have "snd (du hdfs w path) = Inr (Bytes (word_of_nat (digits_value ?f)))"
      using found by (simp add: scan du_foreach_find)
    moreover have "unat (word_of_nat (digits_value ?f) :: 64 word) = digits_value ?f"
      using valid by (intro unat_size_t) (simp add: valid_number_def)
    ultimately show ?thesis by blast
  qed
  have shaped: "\<exists>b. snd (du hdfs w path) = Inr (Bytes b) \<and> unat b = n"
    if lines: "?lines = pre @ (replicate i (CHR '' '') @ decimal n @ replicate (Suc j) (CHR '' '') @
                     ?p @ replicate k (CHR '' '')) # post"
      and pre: "\<forall>x\<in>set pre. \<not> qualifying '' '' ?p x"
      and nospace: "CHR '' '' \<notin> set ?p"
      and fits: "n < 2 ^ 64"
    for pre post i j k n
  proof -
    let ?l = "replicate i (CHR '' '') @ decimal n @ replicate (Suc j) (CHR '' '') @ ?p @
                replicate k (CHR '' '')"
    have fields: "tokenize ?l '' '' = [decimal n, ?p]"
      using nospace absolutePath_nonempty by (rule spaced_line_fields)
    then have q: "qualifying '' '' ?p ?l"
      by (simp add: qualifying_def)
    have found: "find (qualifying '' '' ?p) ?lines = Some ?l"
      unfolding lines using pre q by (rule find_first)
    have valid: "valid_number (hd (tokenize ?l '' ''))"
      using fields fits by (simp add: valid_number_decimal)
    have "digits_value (hd (tokenize ?l '' '')) = n"
      using fields decimal_digits [of n] by simp
    with first [OF found valid] show ?thesis by simp
  qed
  show ?thesis using first shaped by blast
qed

lemma numify_valid: "(\<exists>e. numify f = Inl e) \<longleftrightarrow> \<not> valid_number f"
  by (simp add: numify_valid_number)

theorem du_first_qualifying_line_witness:
  "snd (du \<lparr>hadoop = ''hadoop''\<rparr>
          (shell_world no_env no_files
             (answers (du_command \<lparr>hadoop = ''hadoop''\<rparr> ''/data/file'' @ '' 2>&1'')
                ''1234 /data/file\<newline>WARN: noisy line\<newline>''))
          ''/data/file'') = Inr (Bytes 1234)
   \<and> snd (du \<lparr>hadoop = ''hadoop''\<rparr>
          (shell_world no_env no_files
             (answers (du_command \<lparr>hadoop = ''hadoop''\<rparr> ''/data/file'' @ '' 2>&1'')
                ''WARN: noisy line\<newline>  1234    /data/file  \<newline>''))
          ''data/file'') = Inr (Bytes 1234)
   \<and> snd (du \<lparr>hadoop = ''hadoop''\<rparr>
          (shell_world no_env no_files
             (answers (du_command \<lparr>hadoop = ''hadoop''\<rparr> ''/data/file'' @ '' 2>&1'')
                ''18446744073709551615 /data/file''))
          ''/data/file'') = Inr (Bytes 18446744073709551615)"
proof -
  let ?h = "\<lparr>hadoop = ''hadoop''\<rparr>"
  let ?cmd = "du_command ?h ''/data/file'' @ '' 2>&1''"
  let ?o1 = "''1234 /data/file\<newline>WARN: noisy line\<newline>''"
  let ?o3 = "''18446744073709551615 /data/file''"
  let ?o2 = "''WARN: noisy line\<newline>  1234    /data/file  \<newline>''"
  have ap: "absolutePath ''/data/file'' = ''/data/file''" "absolutePath ''data/file'' = ''/data/file''"
    by (simp_all add: absolutePath_def startsWith_def path_join_def endsWith_def)
  have sh1: "shell (shell_world no_env no_files (answers ?cmd ?o1))
      (du_command ?h (absolutePath ''/data/file'') @ '' 2>&1'') = Inr ?o1"
    by (simp add: ap shell_world_def answers_def)
  have sh2: "shell (shell_world no_env no_files (answers ?cmd ?o2))
      (du_command ?h (absolutePath ''data/file'') @ '' 2>&1'') = Inr ?o2"
    by (simp add: ap shell_world_def answers_def)
  have l1: "tokenize ?o1 ''\<newline>'' = [''1234 /data/file'', ''WARN: noisy line'']"
    by (simp add: tokenize.simps)
  have l2: "tokenize ?o2 ''\<newline>'' = [''WARN: noisy line'', ''  1234    /data/file  '']"
    by (simp add: tokenize.simps)
  have f1: "tokenize ''1234 /data/file'' '' '' = [''1234'', ''/data/file'']"
    by (simp add: tokenize.simps)
  have fw: "tokenize ''WARN: noisy line'' '' '' = [''WARN:'', ''noisy'', ''line'']"
    by (simp add: tokenize.simps)
  have dv: "digits_value ''1234'' = 1234"
    by (simp add: digits_value_def digit_value_def)
  have valid: "valid_number (hd (tokenize ''1234 /data/file'' '' ''))"
    by (simp add: f1 valid_number_def isdigit_def dv)
  have q1: "find (qualifying '' '' (absolutePath ''/data/file'')) (tokenize ?o1 ''\<newline>'')
      = Some ''1234 /data/file''"
    by (simp add: ap l1 qualifying_def f1)
  have word: "b = 1234" if "unat b = 1234" for b :: "64 word"
    using that by (simp add: word_unat_eq_iff)
  from du_first_qualifying_line [OF sh1] q1 valid
  obtain b1 where b1: "snd (du ?h (shell_world no_env no_files (answers ?cmd ?o1)) ''/data/file'')
      = Inr (Bytes b1)" "unat b1 = digits_value (hd (tokenize ''1234 /data/file'' '' ''))"
    by blast
  then have "b1 = 1234"
    by (intro word) (simp add: f1 dv)
  with b1 have "snd (du ?h (shell_world no_env no_files (answers ?cmd ?o1)) ''/data/file'')
      = Inr (Bytes 1234)"
    by simp
  moreover have "snd (du ?h (shell_world no_env no_files (answers ?cmd ?o2)) ''data/file'') = Inr (Bytes 1234)"
  proof -
    have dec: "decimal 1234 = ''1234''" by code_simp
    have shape: "tokenize ?o2 ''\<newline>'' =
        [''WARN: noisy line''] @
        (replicate (Suc (Suc 0)) (CHR '' '') @ decimal 1234 @ replicate (Suc (Suc (Suc (Suc 0)))) (CHR '' '') @
         absolutePath ''data/file'' @ replicate (Suc (Suc 0)) (CHR '' '')) # []"
      by (simp add: l2 dec ap)
    have before: "\<forall>x\<in>set [''WARN: noisy line'']. \<not> qualifying '' '' (absolutePath ''data/file'') x"
      by (simp add: qualifying_def fw)
    have nospace: "CHR '' '' \<notin> set (absolutePath ''data/file'')"
      by (simp add: ap)
    have fits: "(1234::nat) < 2 ^ 64" by simp
    from du_first_qualifying_line [OF sh2] shape before nospace fits
    obtain b2 where b2: "snd (du ?h (shell_world no_env no_files (answers ?cmd ?o2)) ''data/file'')
        = Inr (Bytes b2)" "unat b2 = 1234"
      by blast
    then have "b2 = 1234" by (intro word)
    with b2 show ?thesis by simp
  qed
  moreover have "snd (du ?h (shell_world no_env no_files (answers ?cmd ?o3)) ''/data/file'')
      = Inr (Bytes 18446744073709551615)"
  proof -
    have sh3: "shell (shell_world no_env no_files (answers ?cmd ?o3))
        (du_command ?h (absolutePath ''/data/file'') @ '' 2>&1'') = Inr ?o3"
      by (simp add: ap shell_world_def answers_def)
    have l3: "tokenize ?o3 ''\<newline>'' = [?o3]"
      by (simp add: tokenize.simps)
    have f3: "tokenize ?o3 '' '' = [''18446744073709551615'', ''/data/file'']"
      by (simp add: tokenize.simps)
    have dv3: "digits_value ''18446744073709551615'' = 18446744073709551615"
      by (simp add: digits_value_def digit_value_def)
    have valid3: "valid_number (hd (tokenize ?o3 '' ''))"
      by (simp add: f3 valid_number_def isdigit_def dv3)
    have q3: "find (qualifying '' '' (absolutePath ''/data/file'')) (tokenize ?o3 ''\<newline>'') = Some ?o3"
      by (simp add: ap l3 qualifying_def f3)
    from du_first_qualifying_line [OF sh3] q3 valid3
    obtain b3 where b3: "snd (du ?h (shell_world no_env no_files (answers ?cmd ?o3)) ''/data/file'')
        = Inr (Bytes b3)" "unat b3 = digits_value (hd (tokenize ?o3 '' ''))"
      by blast
    then have "unat b3 = unat (18446744073709551615 :: 64 word)"
      by (simp add: f3 dv3)
    then have "b3 = 18446744073709551615"
      by (simp only: word_unat_eq_iff)
    with b3 show ?thesis by simp
  qed
  ultimately show ?thesis by blast
qed

text \<open>
  The claim C4 as first stated ("tokenizing each line on whitespace") fails on a line
  whose two fields are separated by a tab: split on whitespace the line has the two
  fields \<^verbatim>\<open>1234\<close> and \<^verbatim>\<open>/data/file\<close>, yet \<^verbatim>\<open>du\<close> finds no qualifying line and returns
  the format error.
\<close>

theorem du_tab_separated_line:
  "tokenize (''1234'' @ [CHR 0x09] @ ''/data/file'') whitespace = [''1234'', ''/data/file'']
   \<and> qualifying whitespace ''/data/file'' (''1234'' @ [CHR 0x09] @ ''/data/file'')
   \<and> numify ''1234'' = Inr 1234
   \<and> snd (du \<lparr>hadoop = ''hadoop''\<rparr>
          (shell_world no_env no_files
             (answers (du_command \<lparr>hadoop = ''hadoop''\<rparr> ''/data/file'' @ '' 2>&1'')
                (''1234'' @ [CHR 0x09] @ ''/data/file\<newline>'')))
          ''/data/file'')
       = Inl (''HDFS du returned an unexpected format: '' @ [CHR 0x27] @
              ''1234'' @ [CHR 0x09] @ ''/data/file\<newline>'' @ [CHR 0x27])"
proof -
  have t: "tokenize (''1234'' @ [CHR 0x09] @ ''/data/file'') whitespace = [''1234'', ''/data/file'']"
    by (simp add: tokenize.simps whitespace_def)
  then have q: "qualifying whitespace ''/data/file'' (''1234'' @ [CHR 0x09] @ ''/data/file'')"
    by (simp add: qualifying_def)
  have n: "numify ''1234'' = Inr 1234"
    by (simp add: numify_def isdigit_def digits_value_def digit_value_def)
  have d: "snd (du \<lparr>hadoop = ''hadoop''\<rparr>
          (shell_world no_env no_files
             (answers (du_command \<lparr>hadoop = ''hadoop''\<rparr> ''/data/file'' @ '' 2>&1'')
                (''1234'' @ [CHR 0x09] @ ''/data/file\<newline>'')))
          ''/data/file'')
       = Inl (''HDFS du returned an unexpected format: '' @ [CHR 0x27] @
              ''1234'' @ [CHR 0x09] @ ''/data/file\<newline>'' @ [CHR 0x27])"
    by (simp add: du_def Let_def shell_world_def answers_def absolutePath_def startsWith_def
        tokenize.simps)
  from t q n d show ?thesis by blast
qed

text \<open>
  Claim C5, as amended. When the shell command succeeds, \<^verbatim>\<open>du\<close> returns an error
  exactly when no line of the output qualifies, or the first qualifying line's first
  field is not a valid non-negative integer for a \<^verbatim>\<open>size_t\<close>: not all decimal digits, or
  a value of 2^64 or more. In the first case the message is "HDFS du returned an
  unexpected format: " followed by the raw output between quotes; in the second it
  starts with "HDFS du returned unexpected format: ".
\<close>

theorem du_format_error:
  assumes "shell w (du_command hdfs (absolutePath path) @ '' 2>&1'') = Inr output"
  shows "((\<exists>e. snd (du hdfs w path) = Inl e) \<longleftrightarrow>
            \<not> (\<exists>l\<in>set (tokenize output ''\<newline>''). qualifying '' '' (absolutePath path) l)
            \<or> (\<exists>l. find (qualifying '' '' (absolutePath path)) (tokenize output ''\<newline>'') = Some l
                  \<and> \<not> valid_number (hd (tokenize l '' ''))))
       \<and> (\<not> (\<exists>l\<in>set (tokenize output ''\<newline>''). qualifying '' '' (absolutePath path) l) \<longrightarrow>
            snd (du hdfs w path) =
              Inl (''HDFS du returned an unexpected format: '' @ [CHR 0x27] @ output @ [CHR 0x27])
            \<and> sublist output
                (''HDFS du returned an unexpected format: '' @ [CHR 0x27] @ output @ [CHR 0x27]))
       \<and> (\<forall>l. find (qualifying '' '' (absolutePath path)) (tokenize output ''\<newline>'') = Some l
                \<and> \<not> valid_number (hd (tokenize l '' '')) \<longrightarrow>
            (\<exists>e. snd (du hdfs w path) = Inl (''HDFS du returned unexpected format: '' @ e)))"
proof -
  let ?Q = "qualifying '' '' (absolutePath path)"
  let ?lines = "tokenize output ''\<newline>''"
  let ?none = "Inl (''HDFS du returned an unexpected format: '' @ [CHR 0x27] @ output @ [CHR 0x27])
      :: Bytes Try"
  have scan: "snd (du hdfs w path) = du_foreach (absolutePath path) output ?lines"
    using assms by (rule du_shell_ok)
  have none: "find ?Q ?lines = None \<longleftrightarrow> \<not> (\<exists>l\<in>set ?lines. ?Q l)"
    by (auto simp add: find_None_iff)
  have a: "snd (du hdfs w path) = ?none" if "\<not> (\<exists>l\<in>set ?lines. ?Q l)"
    using that none by (simp add: scan du_foreach_find)
  have raw: "sublist output (''HDFS du returned an unexpected format: '' @ [CHR 0x27] @ output @ [CHR 0x27])"
    using sublist_appendI [of "output" "''HDFS du returned an unexpected format: '' @ [CHR 0x27]" "[CHR 0x27]"]
    by simp
  have b: "\<exists>e. snd (du hdfs w path) = Inl (''HDFS du returned unexpected format: '' @ e)"
    if found: "find ?Q ?lines = Some l" and bad: "\<not> valid_number (hd (tokenize l '' ''))" for l
  proof -
    obtain e where "numify (hd (tokenize l '' '')) = Inl e"
      using bad numify_valid by blast
    then show ?thesis using found by (simp add: scan du_foreach_find)
  qed
  have c: "\<not> (\<exists>l\<in>set ?lines. ?Q l) \<or> (\<exists>l. find ?Q ?lines = Some l \<and> \<not> valid_number (hd (tokenize l '' '')))"
    if err: "snd (du hdfs w path) = Inl e" for e
  proof (cases "find ?Q ?lines")
    case None
    then show ?thesis using none by simp
  next
    case (Some l)
    have "\<not> valid_number (hd (tokenize l '' ''))"
    proof
      assume "valid_number (hd (tokenize l '' ''))"
      then have "\<not> (\<exists>e. numify (hd (tokenize l '' '')) = Inl e)"
        using numify_valid by blast
      then obtain n where "numify (hd (tokenize l '' '')) = Inr n"
        by (cases "numify (hd (tokenize l '' ''))") auto
      then have "snd (du hdfs w path) = Inr (Bytes n)"
        using Some by (simp add: scan du_foreach_find)
      then show False using err by simp
    qed
    then show ?thesis using Some by blast
  qed
  have iff: "(\<exists>e. snd (du hdfs w path) = Inl e) \<longleftrightarrow>
            \<not> (\<exists>l\<in>set ?lines. ?Q l) \<or> (\<exists>l. find ?Q ?lines = Some l \<and> \<not> valid_number (hd (tokenize l '' '')))"
    using a b c by blast
  show ?thesis
    using iff a raw b by blast
qed

theorem du_format_error_witness:
  "snd (du \<lparr>hadoop = ''hadoop''\<rparr>
          (shell_world no_env no_files
             (answers (du_command \<lparr>hadoop = ''hadoop''\<rparr> ''/data/file'' @ '' 2>&1'')
                ''abc /data/file''))
          ''/data/file'')
     = Inl (''HDFS du returned unexpected format: Failed to convert '' @ [CHR 0x27] @ ''abc'' @
            [CHR 0x27] @ '' to number'')
   \<and> snd (du \<lparr>hadoop = ''hadoop''\<rparr>
          (shell_world no_env no_files
             (answers (du_command \<lparr>hadoop = ''hadoop''\<rparr> ''/data/file'' @ '' 2>&1'')
                ''WARN: nothing here\<newline>''))
          ''/data/file'')
     = Inl (''HDFS du returned an unexpected format: '' @ [CHR 0x27] @
            ''WARN: nothing here\<newline>'' @ [CHR 0x27])
   \<and> snd (du \<lparr>hadoop = ''hadoop''\<rparr>
          (shell_world no_env no_files
             (answers (du_command \<lparr>hadoop = ''hadoop''\<rparr> ''/data/file'' @ '' 2>&1'')
                ''18446744073709551616 /data/file''))
          ''/data/file'')
     = Inl (''HDFS du returned unexpected format: Failed to convert '' @ [CHR 0x27] @
            ''18446744073709551616'' @ [CHR 0x27] @ '' to number'')"
proof -
  let ?h = "\<lparr>hadoop = ''hadoop''\<rparr>"
  let ?cmd = "du_command ?h ''/data/file'' @ '' 2>&1''"
  let ?w1 = "shell_world no_env no_files (answers ?cmd ''abc /data/file'')"
  let ?w3 = "shell_world no_env no_files (answers ?cmd ''18446744073709551616 /data/file'')"
  let ?w2 = "shell_world no_env no_files (answers ?cmd ''WARN: nothing here\<newline>'')"
  have ap: "absolutePath ''/data/file'' = ''/data/file''"
    by (simp add: absolutePath_def startsWith_def)
  have sh1: "shell ?w1 (du_command ?h (absolutePath ''/data/file'') @ '' 2>&1'') = Inr ''abc /data/file''"
    by (simp add: ap shell_world_def answers_def)
  have sh2: "shell ?w2 (du_command ?h (absolutePath ''/data/file'') @ '' 2>&1'')
      = Inr ''WARN: nothing here\<newline>''"
    by (simp add: ap shell_world_def answers_def)
  have l1: "tokenize ''abc /data/file'' ''\<newline>'' = [''abc /data/file'']"
    by (simp add: tokenize.simps)
  have f1: "tokenize ''abc /data/file'' '' '' = [''abc'', ''/data/file'']"
    by (simp add: tokenize.simps)
  have q1: "find (qualifying '' '' (absolutePath ''/data/file'')) (tokenize ''abc /data/file'' ''\<newline>'')
      = Some ''abc /data/file''"
    by (simp add: ap l1 qualifying_def f1)
  have bad: "\<not> valid_number (hd (tokenize ''abc /data/file'' '' ''))"
    by (simp add: f1 valid_number_def isdigit_def)
  have l2: "tokenize ''WARN: nothing here\<newline>'' ''\<newline>'' = [''WARN: nothing here'']"
    by (simp add: tokenize.simps)
  have f2: "tokenize ''WARN: nothing here'' '' '' = [''WARN:'', ''nothing'', ''here'']"
    by (simp add: tokenize.simps)
  have q2: "\<not> (\<exists>l\<in>set (tokenize ''WARN: nothing here\<newline>'' ''\<newline>'').
      qualifying '' '' (absolutePath ''/data/file'') l)"
    by (simp add: ap l2 qualifying_def f2)
  from du_format_error [OF sh1] q1 bad
  obtain e where e: "snd (du ?h ?w1 ''/data/file'') = Inl (''HDFS du returned unexpected format: '' @ e)"
    by blast
  have "snd (du ?h ?w1 ''/data/file'')
     = Inl (''HDFS du returned unexpected format: Failed to convert '' @ [CHR 0x27] @ ''abc'' @
            [CHR 0x27] @ '' to number'')"
    by (simp add: du_def Let_def ap shell_world_def answers_def l1 f1 numify_def isdigit_def)
  moreover from du_format_error [OF sh2] q2
  have "snd (du ?h ?w2 ''/data/file'')
     = Inl (''HDFS du returned an unexpected format: '' @ [CHR 0x27] @
            ''WARN: nothing here\<newline>'' @ [CHR 0x27])"
    by blast
  moreover have "snd (du ?h ?w3 ''/data/file'')
     = Inl (''HDFS du returned unexpected format: Failed to convert '' @ [CHR 0x27] @
            ''18446744073709551616'' @ [CHR 0x27] @ '' to number'')"
  proof -
    have sh3: "shell ?w3 (du_command ?h (absolutePath ''/data/file'') @ '' 2>&1'')
        = Inr ''18446744073709551616 /data/file''"
      by (simp add: ap shell_world_def answers_def)
    have l3: "tokenize ''18446744073709551616 /data/file'' ''\<newline>''
        = [''18446744073709551616 /data/file'']"
      by (simp add: tokenize.simps)
    have f3: "tokenize ''18446744073709551616 /data/file'' '' ''
        = [''18446744073709551616'', ''/data/file'']"
      by (simp add: tokenize.simps)
    have q3: "find (qualifying '' '' (absolutePath ''/data/file''))
        (tokenize ''18446744073709551616 /data/file'' ''\<newline>'')
        = Some ''18446744073709551616 /data/file''"
      by (simp add: ap l3 qualifying_def f3)
    have dv: "digits_value ''18446744073709551616'' = 2 ^ 64"
      by (simp add: digits_value_def digit_value_def)
    have too_big: "\<not> valid_number (hd (tokenize ''18446744073709551616 /data/file'' '' ''))"
      by (simp add: f3 valid_number_def dv)
    from du_format_error [OF sh3] q3 too_big
    obtain e3 where "snd (du ?h ?w3 ''/data/file'') = Inl (''HDFS du returned unexpected format: '' @ e3)"
      by blast
    moreover have "du_foreach ''/data/file'' ''18446744073709551616 /data/file''
        [''18446744073709551616 /data/file'']
        = Inl (''HDFS du returned unexpected format: Failed to convert '' @ [CHR 0x27] @
            ''18446744073709551616'' @ [CHR 0x27] @ '' to number'')"
      by (simp add: f3 Let_def numify_def dv)
    ultimately show ?thesis
      using du_shell_ok [OF sh3] by (simp add: ap l3)
  qed
  ultimately show ?thesis using e by blast
qed

text \<open>
  The claim C5 as first stated ("a qualifying line's first field is not a valid
  non-negative integer") fails when such a line comes after a well-formed qualifying
  line: the scan stops at the first qualifying line and returns its number.
\<close>

theorem du_later_malformed_line:
  "tokenize ''12 /p\<newline>abc /p\<newline>'' ''\<newline>'' = [''12 /p'', ''abc /p'']
   \<and> qualifying '' '' ''/p'' ''abc /p''
   \<and> \<not> valid_number (hd (tokenize ''abc /p'' '' ''))
   \<and> snd (du \<lparr>hadoop = ''hadoop''\<rparr>
          (shell_world no_env no_files
             (answers (du_command \<lparr>hadoop = ''hadoop''\<rparr> ''/p'' @ '' 2>&1'')
                ''12 /p\<newline>abc /p\<newline>''))
          ''/p'') = Inr (Bytes 12)"
proof -
  have l: "tokenize ''12 /p\<newline>abc /p\<newline>'' ''\<newline>'' = [''12 /p'', ''abc /p'']"
    by (simp add: tokenize.simps)
  have f: "tokenize ''abc /p'' '' '' = [''abc'', ''/p'']" "tokenize ''12 /p'' '' '' = [''12'', ''/p'']"
    by (simp_all add: tokenize.simps)
  have q: "qualifying '' '' ''/p'' ''abc /p''"
    by (simp add: qualifying_def f)
  have v: "\<not> valid_number (hd (tokenize ''abc /p'' '' ''))"
    by (simp add: f valid_number_def isdigit_def)
  have d: "snd (du \<lparr>hadoop = ''hadoop''\<rparr>
          (shell_world no_env no_files
             (answers (du_command \<lparr>hadoop = ''hadoop''\<rparr> ''/p'' @ '' 2>&1'')
                ''12 /p\<newline>abc /p\<newline>''))
          ''/p'') = Inr (Bytes 12)"
    by (simp add: du_def Let_def shell_world_def answers_def absolutePath_def startsWith_def l f
        numify_def isdigit_def digits_value_def digit_value_def)
  from l q v d show ?thesis by blast
qed

subsection \<open>Failures passed on from the surroundings\<close>

text \<open>
  When the shell reports an error for the disk-usage command, \<^verbatim>\<open>du\<close> returns "HDFS du
  failed: " followed by that error, and the output is not parsed.
\<close>

theorem du_shell_failure:
  "shell w (du_command hdfs (absolutePath path) @ '' 2>&1'') = Inl e \<Longrightarrow>
   snd (du hdfs w path) = Inl (''HDFS du failed: '' @ e)"
  by (simp add: du_def Let_def)

theorem du_shell_failure_witness:
  "snd (du \<lparr>hadoop = ''hadoop''\<rparr> (shell_world no_env no_files (answers [] [])) ''/data/file'')
     = Inl ''HDFS du failed: command failed''"
proof -
  let ?w = "shell_world no_env no_files (answers [] [])"
  have "shell ?w (du_command \<lparr>hadoop = ''hadoop''\<rparr> (absolutePath ''/data/file'') @ '' 2>&1'')
      = Inl ''command failed''"
    by (simp add: shell_world_def answers_def du_command_def)
  from du_shell_failure [OF this] show ?thesis by simp
qed

text \<open>
  When the subprocess cannot be launched, \<^verbatim>\<open>exists\<close> fails with "Failed to execute
  the subprocess: " followed by the launcher's error.
\<close>

theorem exists_launch_failure:
  "subprocess w (hadoop hdfs) (exists_argv path) (PATH ''/dev/null'') PIPE PIPE = Inl e \<Longrightarrow>
   snd (exists hdfs w path) = Some (Failed (''Failed to execute the subprocess: '' @ e))"
  by (simp add: exists_def)

theorem exists_launch_failure_witness:
  "snd (exists \<lparr>hadoop = ''hadoop''\<rparr> (shell_world no_env no_files (answers [] [])) ''/data/file'')
     = Some (Failed ''Failed to execute the subprocess: no subprocess'')"
proof -
  let ?w = "shell_world no_env no_files (answers [] [])"
  have "subprocess ?w (hadoop \<lparr>hadoop = ''hadoop''\<rparr>) (exists_argv ''/data/file'')
      (PATH ''/dev/null'') PIPE PIPE = Inl ''no subprocess''"
    by (simp add: shell_world_def)
  from exists_launch_failure [OF this] show ?thesis by simp
qed

text \<open>
  A failure of the aggregator reaches the caller of \<^verbatim>\<open>exists\<close> unchanged: the lambda
  that reads the exit code is not run.
\<close>

theorem exists_aggregation_failure:
  assumes "subprocess w (hadoop hdfs) (exists_argv path) (PATH ''/dev/null'') PIPE PIPE = Inr s"
    and "result w s = Some (Failed m)"
  shows "snd (exists hdfs w path) = Some (Failed m)"
  using assms by (simp add: exists_def)

theorem exists_aggregation_failure_witness:
  "snd (exists \<lparr>hadoop = ''hadoop''\<rparr>
          (piped_world (Ready (Some 0)) (Failed ''broken pipe'') (Ready [])) ''/data/file'')
     = Some (Failed ''Failed to read stdout from the subprocess: broken pipe'')"
proof -
  let ?w = "piped_world (Ready (Some 0)) (Failed ''broken pipe'') (Ready [])"
  have r: "result ?w (piped_subprocess (Ready (Some 0)))
      = Some (Failed ''Failed to read stdout from the subprocess: broken pipe'')"
    by (simp add: result_def await_def piped_world_def piped_subprocess_def)
  from exists_aggregation_failure [OF piped_launch r] show ?thesis .
qed

text \<open>
  \<^verbatim>\<open>rm\<close>, \<^verbatim>\<open>copyFromLocal\<close> (with its source present) and \<^verbatim>\<open>copyToLocal\<close> succeed exactly
  when their shell command does, and pass the shell's error on unchanged.
\<close>

theorem shell_operations_outcome:
  "(snd (rm hdfs w path) = (case shell w (rm_command hdfs (absolutePath path)) of
       Inl e \<Rightarrow> Inl e | Inr output \<Rightarrow> Inr ()))
   \<and> (os_exists w from \<longrightarrow>
        snd (copyFromLocal hdfs w from to) =
          (case shell w (copy_command hdfs ''copyFromLocal'' from (absolutePath to)) of
             Inl e \<Rightarrow> Inl e | Inr output \<Rightarrow> Inr ()))
   \<and> (snd (copyToLocal hdfs w from to) =
          (case shell w (copy_command hdfs ''copyToLocal'' (absolutePath from) to) of
             Inl e \<Rightarrow> Inl e | Inr output \<Rightarrow> Inr ()))"
  by (simp add: rm_def copyFromLocal_def copyToLocal_def Let_def)

theorem shell_operations_outcome_witness:
  "snd (rm \<lparr>hadoop = ''hadoop''\<rparr>
          (shell_world no_env (only_file ''/tmp/present'')
             (answers (rm_command \<lparr>hadoop = ''hadoop''\<rparr> ''/data/file'') ''Deleted /data/file''))
          ''data/file'') = Inr ()
   \<and> snd (copyFromLocal \<lparr>hadoop = ''hadoop''\<rparr>
          (shell_world no_env (only_file ''/tmp/present'')
             (answers (rm_command \<lparr>hadoop = ''hadoop''\<rparr> ''/data/file'') ''Deleted /data/file''))
          ''/tmp/present'' ''data/file'') = Inl ''command failed''"
proof -
  let ?h = "\<lparr>hadoop = ''hadoop''\<rparr>"
  let ?w = "shell_world no_env (only_file ''/tmp/present'')
             (answers (rm_command ?h ''/data/file'') ''Deleted /data/file'')"
  have present: "os_exists ?w ''/tmp/present''"
    by (simp add: shell_world_def only_file_def)
  have ap: "absolutePath ''data/file'' = ''/data/file''"
    by (simp add: absolutePath_def startsWith_def path_join_def endsWith_def)
  have s1: "shell ?w (rm_command ?h (absolutePath ''data/file'')) = Inr ''Deleted /data/file''"
    by (simp add: ap shell_world_def answers_def)
  have s2: "shell ?w (copy_command ?h ''copyFromLocal'' ''/tmp/present'' (absolutePath ''data/file''))
      = Inl ''command failed''"
    by (simp add: ap shell_world_def answers_def rm_command_def copy_command_def)
  from shell_operations_outcome [of ?h ?w "''data/file''" "''/tmp/present''" "''data/file''"]
    present s1 s2
  show ?thesis by simp
qed

end
